theory Spec2Isabelle
  imports Main
begin

section \<open>Exceptions, log records and the document store\<close>

text \<open>
  The events monitor of Aquarius (\<^verbatim>\<open>aquarius/events/events_monitor.py\<close>) talks to two
  external collaborators: an Elasticsearch instance and a web3 ledger client. Every call
  to them may raise. An exception is a value of \<open>py_exception\<close>; a call that may raise
  returns \<open>py_exception + 'a\<close>, with \<open>Inl\<close> the exception raised.
\<close>

datatype py_exception =
    NotFoundError
  | RequestError
  | ConnectionError
  | TransactionNotFound
  | IndexError
  | KeyError
  | ValueError
  | TypeError
  | AttributeError
  | UnboundLocalError
  | JSONDecodeError
  | RuntimeError

text \<open>
  \<^verbatim>\<open>elasticsearch.exceptions.ElasticsearchException\<close> is the base class of the first
  three exceptions.
\<close>

fun is_ElasticsearchException :: "py_exception \<Rightarrow> bool" where
  "is_ElasticsearchException NotFoundError = True"
| "is_ElasticsearchException RequestError = True"
| "is_ElasticsearchException ConnectionError = True"
| "is_ElasticsearchException _ = False"

text \<open>A raw log entry as \<^verbatim>\<open>web3.eth.get_logs\<close> returns it.\<close>

record raw_log =
  address :: string
  transactionHash :: string
  blockNumber :: int

text \<open>
  The records written by \<^verbatim>\<open>logger.error\<close>, \<^verbatim>\<open>logging.error\<close> and
  \<^verbatim>\<open>logger.exception\<close>, one constructor per message, with the values the message
  interpolates. Messages of the levels info and debug are progress reports and are not
  modelled, except the one of \<^verbatim>\<open>check_metadata_proofs\<close>.
\<close>

datatype log_record =
    Elasticsearch_error py_exception
  | Connection_to_ES_failed
  | Cannot_get_last_block py_exception
  | Store_last_processed_block_RequestError int
  | Delete_asset_failed py_exception
  | Error_processing_event string py_exception raw_log
  | Error_processing_token_update_event py_exception raw_log
  | Error_processing_cycle py_exception
  | Error_updating_purgatory_list py_exception
  | Reading_allowed_validators_failed py_exception
  | Exception_retrieving_proof_addresses

text \<open>A document of the primary (asset) index: its \<^verbatim>\<open>id\<close> and its \<^verbatim>\<open>chainId\<close>.\<close>

record asset =
  asset_id :: string
  chainId :: int

datatype ping_reply = PingTrue | PingNotTrue | PingRaises py_exception

text \<open>
  The state the monitor acts on. \<open>last_block_doc\<close> is the field \<^verbatim>\<open>last_block\<close> of the
  document \<^verbatim>\<open>events_last_block_<chainId>\<close> of the administrative index (\<open>None\<close> when the
  document does not exist); \<open>assets\<close> is the primary index. \<open>ping_calls\<close> and
  \<open>api_calls\<close> count the calls made to the store so far: the answer of the store to its
  \<open>n\<close>-th call is given by the collaborators below. \<open>get_logs_calls\<close> records every range
  queried from the ledger, \<open>processed\<close> every event whose processor ran to its end,
  \<open>logged\<close> the log.
\<close>

record filter_params =
  topics :: "string list"
  fromBlock :: int
  toBlock :: int

record world =
  last_block_doc :: "int option"
  assets :: "asset list"
  ping_calls :: nat
  api_calls :: nat
  get_logs_calls :: "filter_params list"
  processed :: "(string \<times> raw_log) list"
  logged :: "log_record list"

text \<open>A value the ledger client may report as the head block.\<close>

datatype py_value = PyNone | PyBool bool | PyInt int | PyStr string

fun truthy :: "py_value \<Rightarrow> bool" where
  "truthy PyNone = False"
| "truthy (PyBool b) = b"
| "truthy (PyInt i) = (i \<noteq> 0)"
| "truthy (PyStr s) = (s \<noteq> [])"

text \<open>\<^verbatim>\<open>isinstance(v, int)\<close>: \<^verbatim>\<open>bool\<close> is a subclass of \<^verbatim>\<open>int\<close>.\<close>

fun isinstance_int :: "py_value \<Rightarrow> bool" where
  "isinstance_int (PyInt i) = True"
| "isinstance_int (PyBool b) = True"
| "isinstance_int _ = False"

fun int_value :: "py_value \<Rightarrow> int" where
  "int_value (PyInt i) = i"
| "int_value (PyBool b) = (if b then 1 else 0)"
| "int_value _ = 0"

datatype json =
    JNull
  | JBool bool
  | JNumber int
  | JString string
  | JArray "json list"
  | JObject "(string \<times> json) list"

text \<open>A transaction receipt, and an event decoded from it.\<close>

record receipt =
  tx_hash :: string
  tx_from :: string
  tx_to :: string

record event_data =
  event :: string
  args :: "(string \<times> json) list"

text \<open>
  The behaviour of the collaborators, whose code is not part of the sources.
  \<^item> The store: \<open>es_ping n\<close> is the answer to the \<open>n\<close>-th call of \<^verbatim>\<open>es.ping()\<close>;
    \<open>es_fault n\<close> is the exception the \<open>n\<close>-th other call to the store raises, if any.
  \<^item> \<open>get_defined_block\<close> is \<^verbatim>\<open>aquarius.events.util.get_defined_block\<close>.
  \<^item> The ledger client: \<^verbatim>\<open>web3.eth.block_number\<close>, \<^verbatim>\<open>web3.keccak(text=...).hex()\<close>,
    \<^verbatim>\<open>web3.eth.get_logs\<close>, \<^verbatim>\<open>web3.toChecksumAddress\<close>,
    \<^verbatim>\<open>web3.eth.get_transaction_receipt\<close>, and
    \<^verbatim>\<open>contract.events[kind]().processReceipt(receipt, errors=DISCARD)\<close>, which drops what it
    cannot decode and returns the events it could.
  \<^item> \<open>get_fre\<close> and \<open>get_dispenser\<close> say whether the calls of these names raise;
    \<open>fre_exchange_token\<close> is
    \<^verbatim>\<open>fre.caller.getExchange(fre.events.ExchangeRateChanged().processReceipt(receipt)[0].args.exchangeId)[1]\<close>,
    \<open>dispenser_datatoken\<close> is
    \<^verbatim>\<open>dispenser.events.DispenserCreated().processReceipt(receipt)[0].args.datatokenAddress\<close>,
    \<open>getERC721Address\<close> is the call of that name on the ERC20 contract at an address.
  \<^item> The processors: constructing a processor and calling \<^verbatim>\<open>process()\<close> either returns or
    raises, and leaves the primary index in some state. \<open>regular_processor\<close> takes the
    constant's name (which selects the class), the decoded event, the transaction's sender,
    the proofs and the chain id; \<open>order_started_processor\<close> the ERC721 address, the last
    block of the range and the chain id; \<open>token_uri_processor\<close> the raw event and the chain
    id. \<open>purgatory_update_lists\<close> is \<^verbatim>\<open>Purgatory.update_lists\<close>.
\<close>

record collaborators =
  es_ping :: "nat \<Rightarrow> ping_reply"
  es_fault :: "nat \<Rightarrow> py_exception option"
  get_defined_block :: "int \<Rightarrow> int"
  eth_block_number :: "py_exception + py_value"
  keccak :: "string \<Rightarrow> string"
  eth_get_logs :: "filter_params \<Rightarrow> py_exception + raw_log list"
  toChecksumAddress :: "json \<Rightarrow> py_exception + string"
  get_transaction_receipt :: "string \<Rightarrow> py_exception + receipt"
  processReceipt :: "string \<Rightarrow> receipt \<Rightarrow> event_data list"
  get_fre :: "py_exception option"
  get_dispenser :: "py_exception option"
  fre_exchange_token :: "receipt \<Rightarrow> py_exception + string"
  dispenser_datatoken :: "receipt \<Rightarrow> py_exception + string"
  getERC721Address :: "string \<Rightarrow> py_exception + string"
  regular_processor ::
    "string \<Rightarrow> event_data \<Rightarrow> string \<Rightarrow> event_data list \<Rightarrow> int \<Rightarrow> asset list \<Rightarrow>
       (py_exception + unit) \<times> asset list"
  order_started_processor ::
    "string \<Rightarrow> int \<Rightarrow> int \<Rightarrow> asset list \<Rightarrow> (py_exception + unit) \<times> asset list"
  token_uri_processor ::
    "raw_log \<Rightarrow> int \<Rightarrow> asset list \<Rightarrow> (py_exception + unit) \<times> asset list"
  purgatory_update_lists :: "asset list \<Rightarrow> (py_exception + unit) \<times> asset list"

text \<open>The fields of \<^verbatim>\<open>EventsMonitor\<close> the methods read.\<close>

record events_monitor =
  chain_id :: int
  start_block :: int
  blockchain_chunk_size :: int
  monitor_is_on :: bool
  purgatory_enabled :: bool

definition log_error :: "log_record list \<Rightarrow> world \<Rightarrow> world" where
  "log_error rs w = w\<lparr>logged := logged w @ rs\<rparr>"

definition pinged :: "world \<Rightarrow> world" where
  "pinged w = w\<lparr>ping_calls := Suc (ping_calls w)\<rparr>"

definition called :: "world \<Rightarrow> world" where
  "called w = w\<lparr>api_calls := Suc (api_calls w)\<rparr>"

subsection \<open>The checkpoint store\<close>

text \<open>
  The loop at the head of \<^verbatim>\<open>get_last_processed_block\<close>:
  \<^verbatim>\<open>
  while True:
      try:
          if self._es_instance.es.ping() is True:
              break
      except elasticsearch.exceptions.ElasticsearchException as es_err:
          logging.error(f"Elasticsearch error: {es_err}")
      logging.error("Connection to ES failed. Trying to connect to back...")
      time.sleep(5)
  \<close>
  It runs until the store answers, possibly forever: not returning is \<open>None\<close>. An
  exception that is not an \<^verbatim>\<open>ElasticsearchException\<close> leaves the loop.
\<close>

partial_function (option) wait_for_es ::
  "collaborators \<Rightarrow> world \<Rightarrow> ((py_exception + unit) \<times> world) option" where
  "wait_for_es C w =
     (case es_ping C (ping_calls w) of
        PingTrue \<Rightarrow> Some (Inr (), pinged w)
      | PingNotTrue \<Rightarrow> wait_for_es C (log_error [Connection_to_ES_failed] (pinged w))
      | PingRaises e \<Rightarrow>
          if is_ElasticsearchException e
          then wait_for_es C
                 (log_error [Elasticsearch_error e, Connection_to_ES_failed] (pinged w))
          else Some (Inl e, pinged w))"

text \<open>
  \<^verbatim>\<open>es.get(index=self._other_db_index, id=self._index_name)["_source"]["last_block"]\<close>:
  the store raises \<^verbatim>\<open>NotFoundError\<close> when the document does not exist.
\<close>

definition es_get_last_block :: "collaborators \<Rightarrow> world \<Rightarrow> (py_exception + int) \<times> world" where
  "es_get_last_block C w =
     (case es_fault C (api_calls w) of
        Some e \<Rightarrow> (Inl e, called w)
      | None \<Rightarrow>
          (case last_block_doc w of
             None \<Rightarrow> (Inl NotFoundError, called w)
           | Some b \<Rightarrow> (Inr b, called w)))"

text \<open>\<^verbatim>\<open>es.index(index=self._other_db_index, id=self._index_name, body={"last_block": block})\<close>\<close>

definition es_index_last_block ::
  "collaborators \<Rightarrow> int \<Rightarrow> world \<Rightarrow> (py_exception + unit) \<times> world" where
  "es_index_last_block C block w =
     (case es_fault C (api_calls w) of
        Some e \<Rightarrow> (Inl e, called w)
      | None \<Rightarrow> (Inr (), (called w)\<lparr>last_block_doc := Some block\<rparr>))"

text \<open>
  The handler \<^verbatim>\<open>except Exception as e\<close> of \<^verbatim>\<open>get_last_processed_block\<close>: \<open>block\<close> is the
  value the variable holds when the exception arrives.
\<close>

definition last_block_handler ::
  "collaborators \<Rightarrow> events_monitor \<Rightarrow> py_exception \<Rightarrow> int \<Rightarrow> world \<Rightarrow> int \<times> world" where
  "last_block_handler C self e block w =
     (if e = NotFoundError then (get_defined_block C (chain_id self), w)
      else (block, log_error [Cannot_get_last_block e] w))"

definition get_last_processed_block ::
  "collaborators \<Rightarrow> events_monitor \<Rightarrow> world \<Rightarrow> (int \<times> world) option" where
  "get_last_processed_block C self w =
     (let block = get_defined_block C (chain_id self) in
      case wait_for_es C w of
        None \<Rightarrow> None
      | Some (Inl e, w1) \<Rightarrow> Some (last_block_handler C self e block w1)
      | Some (Inr _, w1) \<Rightarrow>
          (case es_get_last_block C w1 of
             (Inl e, w2) \<Rightarrow> Some (last_block_handler C self e block w2)
           | (Inr last_block, w2) \<Rightarrow>
               Some (if 0 \<le> last_block then last_block
                     else get_defined_block C (chain_id self), w2)))"

definition store_last_processed_block ::
  "collaborators \<Rightarrow> events_monitor \<Rightarrow> int \<Rightarrow> world \<Rightarrow>
     ((py_exception + unit) \<times> world) option" where
  "store_last_processed_block C self block w =
     (case get_last_processed_block C self w of
        None \<Rightarrow> None
      | Some (stored_block, w1) \<Rightarrow>
          if block \<le> stored_block then Some (Inr (), w1)
          else (case es_index_last_block C block w1 of
                  (Inr _, w2) \<Rightarrow> Some (Inr (), w2)
                | (Inl e, w2) \<Rightarrow>
                    if e = RequestError
                    then Some (Inr (),
                           log_error [Store_last_processed_block_RequestError block] w2)
                    else Some (Inl e, w2)))"

section \<open>The block range scanner\<close>

text \<open>
  Modelled from the spec: the closed set of event kinds (\<^verbatim>\<open>EventTypes\<close> of the module
  \<^verbatim>\<open>aquarius.events.constants\<close>, which is not part of the sources): creation, update
  and state change of metadata, order start, token-URI update, exchange creation,
  exchange-rate change and dispenser creation. The value of each constant is the event
  name of the signature \<^verbatim>\<open>get_event_logs\<close> hashes for it.
\<close>

definition EVENT_METADATA_CREATED :: string where
  "EVENT_METADATA_CREATED = ''MetadataCreated''"

definition EVENT_METADATA_UPDATED :: string where
  "EVENT_METADATA_UPDATED = ''MetadataUpdated''"

definition EVENT_METADATA_STATE :: string where
  "EVENT_METADATA_STATE = ''MetadataState''"

definition EVENT_ORDER_STARTED :: string where
  "EVENT_ORDER_STARTED = ''OrderStarted''"

definition EVENT_TOKEN_URI_UPDATE :: string where
  "EVENT_TOKEN_URI_UPDATE = ''TokenURIUpdate''"

definition EVENT_EXCHANGE_CREATED :: string where
  "EVENT_EXCHANGE_CREATED = ''ExchangeCreated''"

definition EVENT_EXCHANGE_RATE_CHANGED :: string where
  "EVENT_EXCHANGE_RATE_CHANGED = ''ExchangeRateChanged''"

definition EVENT_DISPENSER_CREATED :: string where
  "EVENT_DISPENSER_CREATED = ''DispenserCreated''"

definition get_all_values :: "string list" where
  "get_all_values =
     [EVENT_METADATA_CREATED, EVENT_METADATA_UPDATED, EVENT_METADATA_STATE,
      EVENT_ORDER_STARTED, EVENT_TOKEN_URI_UPDATE, EVENT_EXCHANGE_CREATED,
      EVENT_EXCHANGE_RATE_CHANGED, EVENT_DISPENSER_CREATED]"

text \<open>\<^verbatim>\<open>EventTypes.get_value(name)\<close>: the attribute of that name.\<close>

definition get_value :: "string \<Rightarrow> py_exception + string" where
  "get_value name =
     (if name = ''EVENT_METADATA_CREATED'' then Inr EVENT_METADATA_CREATED
      else if name = ''EVENT_METADATA_UPDATED'' then Inr EVENT_METADATA_UPDATED
      else if name = ''EVENT_METADATA_STATE'' then Inr EVENT_METADATA_STATE
      else if name = ''EVENT_ORDER_STARTED'' then Inr EVENT_ORDER_STARTED
      else if name = ''EVENT_TOKEN_URI_UPDATE'' then Inr EVENT_TOKEN_URI_UPDATE
      else if name = ''EVENT_EXCHANGE_CREATED'' then Inr EVENT_EXCHANGE_CREATED
      else if name = ''EVENT_EXCHANGE_RATE_CHANGED'' then Inr EVENT_EXCHANGE_RATE_CHANGED
      else if name = ''EVENT_DISPENSER_CREATED'' then Inr EVENT_DISPENSER_CREATED
      else Inl AttributeError)"

definition hash_text :: "string \<Rightarrow> string" where
  "hash_text event_name =
     (if event_name = EVENT_METADATA_CREATED
      then ''MetadataCreated(address,uint8,string,bytes,bytes,bytes32,uint256,uint256)''
      else if event_name = EVENT_METADATA_UPDATED
      then ''MetadataUpdated(address,uint8,string,bytes,bytes,bytes32,uint256,uint256)''
      else if event_name = EVENT_METADATA_STATE
      then ''MetadataState(address,uint8,uint256,uint256)''
      else if event_name = EVENT_TOKEN_URI_UPDATE
      then ''TokenURIUpdate(address,string,uint256,uint256,uint256)''
      else if event_name = EVENT_EXCHANGE_CREATED
      then ''ExchangeCreated(bytes32,address,address,address,uint256)''
      else if event_name = EVENT_EXCHANGE_RATE_CHANGED
      then ''ExchangeRateChanged(bytes32,address,uint256)''
      else if event_name = EVENT_DISPENSER_CREATED
      then ''DispenserCreated(address,address,uint256,uint256,address)''
      else ''OrderStarted(address,address,uint256,uint256,uint256,address,uint256)'')"

text \<open>
  The loop of \<^verbatim>\<open>get_event_logs\<close>:
  \<^verbatim>\<open>
  while _from <= to_block:
      logs = self._web3.eth.get_logs(filter_params)
      all_logs.extend(logs)
      _from = _to + 1
      _to = min(_from + chunk_size - 1, to_block)
      filter_params.update({"fromBlock": _from, "toBlock": _to})
  \<close>
  With a chunk size below 1 it does not advance, so it is a partial function. An
  exception of \<^verbatim>\<open>get_logs\<close> ends the scan.
\<close>

partial_function (option) get_logs_loop ::
  "collaborators \<Rightarrow> string \<Rightarrow> int \<Rightarrow> int \<Rightarrow> int \<Rightarrow> int \<Rightarrow> raw_log list \<Rightarrow> world \<Rightarrow>
     ((py_exception + raw_log list) \<times> world) option" where
  "get_logs_loop C event_signature_hash to_block chunk_size from' to' all_logs w =
     (if from' \<le> to_block
      then (case eth_get_logs C
                   \<lparr>topics = [event_signature_hash], fromBlock = from', toBlock = to'\<rparr> of
              Inl e \<Rightarrow>
                Some (Inl e,
                  w\<lparr>get_logs_calls := get_logs_calls w @
                     [\<lparr>topics = [event_signature_hash], fromBlock = from', toBlock = to'\<rparr>]\<rparr>)
            | Inr logs \<Rightarrow>
                get_logs_loop C event_signature_hash to_block chunk_size
                  (to' + 1) (min ((to' + 1) + chunk_size - 1) to_block) (all_logs @ logs)
                  (w\<lparr>get_logs_calls := get_logs_calls w @
                     [\<lparr>topics = [event_signature_hash], fromBlock = from', toBlock = to'\<rparr>]\<rparr>))
      else Some (Inr all_logs, w))"

definition get_event_logs ::
  "collaborators \<Rightarrow> string \<Rightarrow> int \<Rightarrow> int \<Rightarrow> int \<Rightarrow> world \<Rightarrow>
     ((py_exception + raw_log list) \<times> world) option" where
  "get_event_logs C event_name from_block to_block chunk_size w =
     (if event_name \<notin> set get_all_values then Some (Inr [], w)
      else get_logs_loop C (keccak C (hash_text event_name)) to_block chunk_size
             from_block (min (from_block + chunk_size - 1) to_block) [] w)"

text \<open>The callers leave \<^verbatim>\<open>chunk_size\<close> at its default.\<close>

definition default_chunk_size :: int where
  "default_chunk_size = 1000"

section \<open>The event dispatcher\<close>

text \<open>
  The body of the loop of \<^verbatim>\<open>handle_regular_event_processor\<close>, for the events still to
  handle. The contract's address, the receipt and the decoded event are computed before
  the \<^verbatim>\<open>try\<close>: an exception there leaves the loop and the method. The proofs, the
  processor's construction and \<^verbatim>\<open>process()\<close> are inside it: an exception there is logged
  and the loop goes on. \<open>kind\<close> is \<^verbatim>\<open>EventTypes.get_value(event_name)\<close>.
\<close>

fun regular_events_loop ::
  "collaborators \<Rightarrow> events_monitor \<Rightarrow> string \<Rightarrow> string \<Rightarrow> raw_log list \<Rightarrow> world \<Rightarrow>
     (py_exception + unit) \<times> world" where
  "regular_events_loop C self event_name kind [] w = (Inr (), w)"
| "regular_events_loop C self event_name kind (ev # events) w =
     (case toChecksumAddress C (JString (address ev)) of
        Inl e \<Rightarrow> (Inl e, w)
      | Inr dt_address \<Rightarrow>
     (case get_transaction_receipt C (transactionHash ev) of
        Inl e \<Rightarrow> (Inl e, w)
      | Inr receipt \<Rightarrow>
     (case processReceipt C kind receipt of
        [] \<Rightarrow> (Inl IndexError, w)
      | event_object # _ \<Rightarrow>
     (case regular_processor C event_name event_object (tx_from receipt)
             (processReceipt C ''MetadataValidated'' receipt) (chain_id self) (assets w) of
        (Inr _, docs) \<Rightarrow>
          regular_events_loop C self event_name kind events
            (w\<lparr>assets := docs, processed := processed w @ [(kind, ev)]\<rparr>)
      | (Inl e, docs) \<Rightarrow>
          regular_events_loop C self event_name kind events
            (log_error [Error_processing_event kind e ev] (w\<lparr>assets := docs\<rparr>))))))"

definition handle_regular_event_processor ::
  "collaborators \<Rightarrow> events_monitor \<Rightarrow> string \<Rightarrow> int \<Rightarrow> int \<Rightarrow> world \<Rightarrow>
     ((py_exception + unit) \<times> world) option" where
  "handle_regular_event_processor C self event_name from_block to_block w =
     (case get_value event_name of
        Inl e \<Rightarrow> Some (Inl e, w)
      | Inr kind \<Rightarrow>
          (case get_event_logs C kind from_block to_block default_chunk_size w of
             None \<Rightarrow> None
           | Some (Inl e, w1) \<Rightarrow> Some (Inl e, w1)
           | Some (Inr events, w1) \<Rightarrow>
               Some (regular_events_loop C self event_name kind events w1)))"

text \<open>The ERC20 address of a price-change event, by the kind of the event.\<close>

definition erc20_address_of :: "collaborators \<Rightarrow> string \<Rightarrow> raw_log \<Rightarrow> py_exception + string" where
  "erc20_address_of C event_name ev =
     (if event_name = EVENT_EXCHANGE_CREATED
      then (case get_transaction_receipt C (transactionHash ev) of
              Inl e \<Rightarrow> Inl e
            | Inr receipt \<Rightarrow> Inr (tx_to receipt))
      else if event_name = EVENT_EXCHANGE_RATE_CHANGED
      then (case get_transaction_receipt C (transactionHash ev) of
              Inl e \<Rightarrow> Inl e
            | Inr receipt \<Rightarrow> fre_exchange_token C receipt)
      else if event_name = EVENT_DISPENSER_CREATED
      then (case get_transaction_receipt C (transactionHash ev) of
              Inl e \<Rightarrow> Inl e
            | Inr receipt \<Rightarrow> dispenser_datatoken C receipt)
      else Inr (address ev))"

text \<open>
  \<^verbatim>\<open>OrderStartedProcessor(erc20_contract.caller.getERC721Address(), ...).process()\<close>, the
  body of the \<^verbatim>\<open>try\<close> of \<^verbatim>\<open>handle_price_change\<close>.
\<close>

definition process_order_started ::
  "collaborators \<Rightarrow> events_monitor \<Rightarrow> string \<Rightarrow> int \<Rightarrow> asset list \<Rightarrow>
     (py_exception + unit) \<times> asset list" where
  "process_order_started C self erc20 to_block docs =
     (case getERC721Address C erc20 of
        Inl e \<Rightarrow> (Inl e, docs)
      | Inr erc721 \<Rightarrow> order_started_processor C erc721 to_block (chain_id self) docs)"

fun price_events_loop ::
  "collaborators \<Rightarrow> events_monitor \<Rightarrow> string \<Rightarrow> int \<Rightarrow> raw_log list \<Rightarrow> world \<Rightarrow>
     (py_exception + unit) \<times> world" where
  "price_events_loop C self event_name to_block [] w = (Inr (), w)"
| "price_events_loop C self event_name to_block (ev # events) w =
     (case erc20_address_of C event_name ev of
        Inl e \<Rightarrow> (Inl e, w)
      | Inr erc20_address \<Rightarrow>
     (case toChecksumAddress C (JString erc20_address) of
        Inl e \<Rightarrow> (Inl e, w)
      | Inr erc20 \<Rightarrow>
     (case process_order_started C self erc20 to_block (assets w) of
        (Inr _, docs) \<Rightarrow>
          price_events_loop C self event_name to_block events
            (w\<lparr>assets := docs, processed := processed w @ [(event_name, ev)]\<rparr>)
      | (Inl e, docs) \<Rightarrow>
          price_events_loop C self event_name to_block events
            (log_error [Error_processing_event event_name e ev] (w\<lparr>assets := docs\<rparr>)))))"

text \<open>The loop of \<^verbatim>\<open>handle_price_change\<close> over the four kinds of event.\<close>

fun price_kinds_loop ::
  "collaborators \<Rightarrow> events_monitor \<Rightarrow> string list \<Rightarrow> int \<Rightarrow> int \<Rightarrow> world \<Rightarrow>
     ((py_exception + unit) \<times> world) option" where
  "price_kinds_loop C self [] from_block to_block w = Some (Inr (), w)"
| "price_kinds_loop C self (event_name # names) from_block to_block w =
     (case get_event_logs C event_name from_block to_block default_chunk_size w of
        None \<Rightarrow> None
      | Some (Inl e, w1) \<Rightarrow> Some (Inl e, w1)
      | Some (Inr events, w1) \<Rightarrow>
          (case price_events_loop C self event_name to_block events w1 of
             (Inl e, w2) \<Rightarrow> Some (Inl e, w2)
           | (Inr _, w2) \<Rightarrow> price_kinds_loop C self names from_block to_block w2))"

definition handle_price_change ::
  "collaborators \<Rightarrow> events_monitor \<Rightarrow> int \<Rightarrow> int \<Rightarrow> world \<Rightarrow>
     ((py_exception + unit) \<times> world) option" where
  "handle_price_change C self from_block to_block w =
     (case get_fre C of
        Some e \<Rightarrow> Some (Inl e, w)
      | None \<Rightarrow>
          (case get_dispenser C of
             Some e \<Rightarrow> Some (Inl e, w)
           | None \<Rightarrow>
               price_kinds_loop C self
                 [EVENT_ORDER_STARTED, EVENT_EXCHANGE_CREATED, EVENT_EXCHANGE_RATE_CHANGED,
                  EVENT_DISPENSER_CREATED]
                 from_block to_block w))"

fun token_uri_events_loop ::
  "collaborators \<Rightarrow> events_monitor \<Rightarrow> raw_log list \<Rightarrow> world \<Rightarrow> world" where
  "token_uri_events_loop C self [] w = w"
| "token_uri_events_loop C self (ev # events) w =
     (case token_uri_processor C ev (chain_id self) (assets w) of
        (Inr _, docs) \<Rightarrow>
          token_uri_events_loop C self events
            (w\<lparr>assets := docs, processed := processed w @ [(EVENT_TOKEN_URI_UPDATE, ev)]\<rparr>)
      | (Inl e, docs) \<Rightarrow>
          token_uri_events_loop C self events
            (log_error [Error_processing_token_update_event e ev] (w\<lparr>assets := docs\<rparr>)))"

definition handle_token_uri_update ::
  "collaborators \<Rightarrow> events_monitor \<Rightarrow> int \<Rightarrow> int \<Rightarrow> world \<Rightarrow>
     ((py_exception + unit) \<times> world) option" where
  "handle_token_uri_update C self from_block to_block w =
     (case get_event_logs C EVENT_TOKEN_URI_UPDATE from_block to_block default_chunk_size w of
        None \<Rightarrow> None
      | Some (Inl e, w1) \<Rightarrow> Some (Inl e, w1)
      | Some (Inr events, w1) \<Rightarrow> Some (Inr (), token_uri_events_loop C self events w1))"

text \<open>
  The loop of \<^verbatim>\<open>process_block_range\<close> over the keys of \<^verbatim>\<open>event_processors\<close>, in the order
  of the dictionary.
\<close>

fun regular_kinds_loop ::
  "collaborators \<Rightarrow> events_monitor \<Rightarrow> string list \<Rightarrow> int \<Rightarrow> int \<Rightarrow> world \<Rightarrow>
     ((py_exception + unit) \<times> world) option" where
  "regular_kinds_loop C self [] from_block to_block w = Some (Inr (), w)"
| "regular_kinds_loop C self (event_name # names) from_block to_block w =
     (case handle_regular_event_processor C self event_name from_block to_block w of
        None \<Rightarrow> None
      | Some (Inl e, w1) \<Rightarrow> Some (Inl e, w1)
      | Some (Inr _, w1) \<Rightarrow> regular_kinds_loop C self names from_block to_block w1)"

definition process_block_range ::
  "collaborators \<Rightarrow> events_monitor \<Rightarrow> int \<Rightarrow> int \<Rightarrow> world \<Rightarrow>
     ((py_exception + unit) \<times> world) option" where
  "process_block_range C self from_block to_block w =
     (if from_block > to_block then Some (Inr (), w)
      else
        (case regular_kinds_loop C self
                [''EVENT_METADATA_CREATED'', ''EVENT_METADATA_UPDATED'', ''EVENT_METADATA_STATE'']
                from_block to_block w of
           None \<Rightarrow> None
         | Some (Inl e, w1) \<Rightarrow> Some (Inl e, w1)
         | Some (Inr _, w1) \<Rightarrow>
        (case handle_price_change C self from_block to_block w1 of
           None \<Rightarrow> None
         | Some (Inl e, w2) \<Rightarrow> Some (Inl e, w2)
         | Some (Inr _, w2) \<Rightarrow>
        (case handle_token_uri_update C self from_block to_block w2 of
           None \<Rightarrow> None
         | Some (Inl e, w3) \<Rightarrow> Some (Inl e, w3)
         | Some (Inr _, w3) \<Rightarrow> store_last_processed_block C self to_block w3))))"

section \<open>The monitor loop\<close>

text \<open>\<^verbatim>\<open>range(start, stop, step)\<close> for a step other than 0.\<close>

definition py_range :: "int \<Rightarrow> int \<Rightarrow> int \<Rightarrow> int list" where
  "py_range start stop step =
     (if 0 < step
      then map (\<lambda>k. start + int k * step) [0..<nat ((stop - start + step - 1) div step)]
      else if step < 0
      then map (\<lambda>k. start + int k * step) [0..<nat ((start - stop - step - 1) div (- step))]
      else [])"

text \<open>
  The \<^verbatim>\<open>for\<close> loop of \<^verbatim>\<open>process_current_blocks\<close> over the chunk ends still to visit. It
  returns the value \<^verbatim>\<open>end_block_chunk\<close> holds after the loop: \<open>None\<close> when the loop never
  ran and the variable is unbound.
\<close>

fun chunks_loop ::
  "collaborators \<Rightarrow> events_monitor \<Rightarrow> int list \<Rightarrow> int \<Rightarrow> int option \<Rightarrow> world \<Rightarrow>
     ((py_exception + int option) \<times> world) option" where
  "chunks_loop C self [] start_block_chunk end_block_chunk w =
     Some (Inr end_block_chunk, w)"
| "chunks_loop C self (e # es) start_block_chunk end_block_chunk w =
     (case process_block_range C self start_block_chunk e w of
        None \<Rightarrow> None
      | Some (Inl x, w1) \<Rightarrow> Some (Inl x, w1)
      | Some (Inr _, w1) \<Rightarrow> chunks_loop C self es e (Some e) w1)"

definition process_current_blocks ::
  "collaborators \<Rightarrow> events_monitor \<Rightarrow> world \<Rightarrow> ((py_exception + unit) \<times> world) option" where
  "process_current_blocks C self w =
     (case get_last_processed_block C self w of
        None \<Rightarrow> None
      | Some (last_block, w1) \<Rightarrow>
          (case eth_block_number C of
             Inl e \<Rightarrow> Some (Inl e, w1)
           | Inr current_block \<Rightarrow>
               if \<not> truthy current_block \<or> \<not> isinstance_int current_block
                  \<or> int_value current_block \<le> last_block
               then Some (Inr (), w1)
               else if blockchain_chunk_size self = 0 then Some (Inl ValueError, w1)
               else
                 (case chunks_loop C self
                         (py_range last_block (int_value current_block)
                            (blockchain_chunk_size self))
                         last_block None w1 of
                    None \<Rightarrow> None
                  | Some (Inl e, w2) \<Rightarrow> Some (Inl e, w2)
                  | Some (Inr None, w2) \<Rightarrow> Some (Inl UnboundLocalError, w2)
                  | Some (Inr (Some end_block_chunk), w2) \<Rightarrow>
                      process_block_range C self end_block_chunk
                        (int_value current_block) w2)))"

definition update_purgatory :: "collaborators \<Rightarrow> world \<Rightarrow> world" where
  "update_purgatory C w =
     (case purgatory_update_lists C (assets w) of
        (Inl e, docs) \<Rightarrow> log_error [Error_updating_purgatory_list e] (w\<lparr>assets := docs\<rparr>)
      | (Inr _, docs) \<Rightarrow> w\<lparr>assets := docs\<rparr>)"

definition do_run_monitor :: "collaborators \<Rightarrow> events_monitor \<Rightarrow> world \<Rightarrow> world option" where
  "do_run_monitor C self w =
     (if \<not> monitor_is_on self then Some w
      else
        (case process_current_blocks C self w of
           None \<Rightarrow> None
         | Some (Inl e, w1) \<Rightarrow>
             Some (if purgatory_enabled self
                   then update_purgatory C (log_error [Error_processing_cycle e] w1)
                   else log_error [Error_processing_cycle e] w1)
         | Some (Inr _, w1) \<Rightarrow>
             Some (if purgatory_enabled self then update_purgatory C w1 else w1)))"

definition stop_monitor :: "events_monitor \<Rightarrow> events_monitor" where
  "stop_monitor self = self\<lparr>monitor_is_on := False\<rparr>"

text \<open>
  \<^verbatim>\<open>start_events_monitor\<close>: the second component says whether a thread running
  \<^verbatim>\<open>run_monitor\<close> was started.
\<close>

definition start_events_monitor :: "events_monitor \<Rightarrow> events_monitor \<times> bool" where
  "start_events_monitor self =
     (if monitor_is_on self then (self, False)
      else (self\<lparr>monitor_is_on := True\<rparr>, True))"

text \<open>
  \<^verbatim>\<open>run_monitor\<close>, the body of the background thread:
  \<^verbatim>\<open>
  while True:
      self.do_run_monitor()
      time.sleep(self._monitor_sleep_time)
  \<close>
  The flag \<^verbatim>\<open>_monitor_is_on\<close> is written by the other threads, through
  \<^verbatim>\<open>stop_monitor\<close> and \<^verbatim>\<open>start_events_monitor\<close>: \<open>flag n\<close> is the value iteration \<open>n\<close>
  of the loop finds when it reads it. The function returns the world the loop leaves
  when it ends.
\<close>

partial_function (option) run_monitor ::
  "collaborators \<Rightarrow> events_monitor \<Rightarrow> (nat \<Rightarrow> bool) \<Rightarrow> nat \<Rightarrow> world \<Rightarrow> world option" where
  "run_monitor C self flag n w =
     (case do_run_monitor C (self\<lparr>monitor_is_on := flag n\<rparr>) w of
        None \<Rightarrow> None
      | Some w1 \<Rightarrow> run_monitor C self flag (Suc n) w1)"

section \<open>Clean start\<close>

text \<open>
  \<^verbatim>\<open>get_assets_in_chain\<close>: two searches of the primary index for the documents of the
  chain, the first for their number, the second for that many documents.
\<close>

definition get_assets_in_chain ::
  "collaborators \<Rightarrow> events_monitor \<Rightarrow> world \<Rightarrow> (py_exception + asset list) \<times> world" where
  "get_assets_in_chain C self w =
     (case es_fault C (api_calls w) of
        Some e \<Rightarrow> (Inl e, called w)
      | None \<Rightarrow>
          (case es_fault C (api_calls (called w)) of
             Some e \<Rightarrow> (Inl e, called (called w))
           | None \<Rightarrow>
               (Inr (take (length (filter (\<lambda>a. chainId a = chain_id self) (assets w)))
                       (filter (\<lambda>a. chainId a = chain_id self) (assets w))),
                called (called w))))"

text \<open>
  Modelled from the spec: \<^verbatim>\<open>ElasticsearchInstance.delete\<close>, which is not part of the
  sources, removes the document of that id from the primary index (a clean start wipes
  the documents of the chain). The loop of \<^verbatim>\<open>reset_chain\<close> calls it as
  \<^verbatim>\<open>self._es_instance.delete(asset["id"])\<close> for every document found; a failure is
  logged and the loop goes on.
\<close>

fun delete_assets_loop :: "collaborators \<Rightarrow> asset list \<Rightarrow> world \<Rightarrow> world" where
  "delete_assets_loop C [] w = w"
| "delete_assets_loop C (a # as) w =
     (case es_fault C (api_calls w) of
        Some e \<Rightarrow> delete_assets_loop C as (log_error [Delete_asset_failed e] (called w))
      | None \<Rightarrow>
          delete_assets_loop C as
            ((called w)\<lparr>assets := filter (\<lambda>d. asset_id d \<noteq> asset_id a) (assets w)\<rparr>))"

definition reset_chain ::
  "collaborators \<Rightarrow> events_monitor \<Rightarrow> world \<Rightarrow> ((py_exception + unit) \<times> world) option" where
  "reset_chain C self w =
     (case get_assets_in_chain C self w of
        (Inl e, w1) \<Rightarrow> Some (Inl e, w1)
      | (Inr found, w1) \<Rightarrow>
          store_last_processed_block C self (start_block self) (delete_assets_loop C found w1))"

section \<open>The proof checker\<close>

text \<open>
  \<^verbatim>\<open>check_metadata_proofs(web3, metadata_proofs)\<close> of \<^verbatim>\<open>aquarius/events/proof_checker.py\<close>.
  Its inputs are the proofs, the value of the environment variable
  \<^verbatim>\<open>ALLOWED_VALIDATORS\<close> (\<open>None\<close> when it is unset), and two library functions, which are
  parameters: \<^verbatim>\<open>json.loads\<close> and \<^verbatim>\<open>web3.toChecksumAddress\<close>. It returns its result and
  what it logged.
\<close>

text \<open>\<^verbatim>\<open>set(v)\<close> for a decoded JSON value \<open>v\<close>: lists and dictionaries cannot be hashed,
  and only strings, lists and dictionaries can be iterated.\<close>

fun hashable :: "json \<Rightarrow> bool" where
  "hashable (JArray xs) = False"
| "hashable (JObject kvs) = False"
| "hashable _ = True"

fun py_set :: "json \<Rightarrow> py_exception + json list" where
  "py_set (JArray xs) = (if list_all hashable xs then Inr (remdups xs) else Inl TypeError)"
| "py_set (JString s) = Inr (remdups (map (\<lambda>c. JString [c]) s))"
| "py_set (JObject kvs) = Inr (remdups (map (\<lambda>kv. JString (fst kv)) kvs))"
| "py_set _ = Inl TypeError"

text \<open>\<^verbatim>\<open>metadata_proof.args.validator\<close>\<close>

definition args_validator :: "event_data \<Rightarrow> py_exception + json" where
  "args_validator metadata_proof =
     (case map_of (args metadata_proof) ''validator'' of
        None \<Rightarrow> Inl AttributeError
      | Some v \<Rightarrow> Inr v)"

text \<open>The two set comprehensions: the first exception ends the comprehension.\<close>

fun proof_addresses ::
  "(json \<Rightarrow> py_exception + string) \<Rightarrow> event_data list \<Rightarrow> py_exception + string list" where
  "proof_addresses checksum [] = Inr []"
| "proof_addresses checksum (p # ps) =
     (case args_validator p of
        Inl e \<Rightarrow> Inl e
      | Inr v \<Rightarrow>
          (case checksum v of
             Inl e \<Rightarrow> Inl e
           | Inr a \<Rightarrow>
               (case proof_addresses checksum ps of
                  Inl e \<Rightarrow> Inl e
                | Inr as \<Rightarrow> Inr (a # as))))"

fun allowed_addresses ::
  "(json \<Rightarrow> py_exception + string) \<Rightarrow> json list \<Rightarrow> py_exception + string list" where
  "allowed_addresses checksum [] = Inr []"
| "allowed_addresses checksum (v # vs) =
     (case checksum v of
        Inl e \<Rightarrow> Inl e
      | Inr a \<Rightarrow>
          (case allowed_addresses checksum vs of
             Inl e \<Rightarrow> Inl e
           | Inr as \<Rightarrow> Inr (a # as)))"

definition check_metadata_proofs ::
  "(json \<Rightarrow> py_exception + string) \<Rightarrow> (string \<Rightarrow> py_exception + json) \<Rightarrow> string option \<Rightarrow>
     event_data list \<Rightarrow> bool \<times> log_record list" where
  "check_metadata_proofs checksum json_loads ALLOWED_VALIDATORS metadata_proofs =
     (case ALLOWED_VALIDATORS of
        None \<Rightarrow> (True, [])
      | Some text \<Rightarrow>
          if text = [] then (True, [])
          else
            (case json_loads text of
               Inl e \<Rightarrow> (False, [Reading_allowed_validators_failed e])
             | Inr v \<Rightarrow>
                 (case py_set v of
                    Inl e \<Rightarrow> (False, [Reading_allowed_validators_failed e])
                  | Inr allowed_validators \<Rightarrow>
                      if allowed_validators = [] then (True, [])
                      else
                        (case proof_addresses checksum metadata_proofs of
                           Inl e \<Rightarrow> (False, [Exception_retrieving_proof_addresses])
                         | Inr ps \<Rightarrow>
                             (case allowed_addresses checksum allowed_validators of
                                Inl e \<Rightarrow> (False, [Exception_retrieving_proof_addresses])
                              | Inr as \<Rightarrow> (list_ex (\<lambda>a. a \<in> set as) ps, []))))))"

section \<open>Notions used in the statements\<close>

text \<open>The replies to \<^verbatim>\<open>es.ping()\<close> on which the loop of \<open>wait_for_es\<close> goes round again.\<close>

fun retrying :: "ping_reply \<Rightarrow> bool" where
  "retrying PingTrue = False"
| "retrying PingNotTrue = True"
| "retrying (PingRaises e) = is_ElasticsearchException e"

fun ping_exit :: "ping_reply \<Rightarrow> py_exception + unit" where
  "ping_exit (PingRaises e) = Inl e"
| "ping_exit _ = Inr ()"

text \<open>
  Two worlds with the same documents and the same effects on the ledger and the
  processors: they may differ in the log and in the number of calls made to the store.
\<close>

definition same_store :: "world \<Rightarrow> world \<Rightarrow> bool" where
  "same_store w w' =
     (last_block_doc w' = last_block_doc w \<and> assets w' = assets w
      \<and> get_logs_calls w' = get_logs_calls w \<and> processed w' = processed w)"

text \<open>
  The checkpoint \<^verbatim>\<open>get_last_processed_block\<close> reads in the world \<open>w\<close> when the ping
  number \<open>k\<close> from there is the one that ends the wait for the store: the stored value
  when that ping said \<^verbatim>\<open>True\<close>, the read raises nothing and the stored value is not
  negative, and the default start block otherwise.
\<close>

definition checkpoint_read :: "collaborators \<Rightarrow> events_monitor \<Rightarrow> world \<Rightarrow> nat \<Rightarrow> int" where
  "checkpoint_read C self w k =
     (if es_ping C (ping_calls w + k) = PingTrue \<and> es_fault C (api_calls w) = None
      then (case last_block_doc w of
              None \<Rightarrow> get_defined_block C (chain_id self)
            | Some b \<Rightarrow> if 0 \<le> b then b else get_defined_block C (chain_id self))
      else get_defined_block C (chain_id self))"

text \<open>\<^verbatim>\<open>store_last_processed_block(x)\<close> followed by \<^verbatim>\<open>store_last_processed_block(y)\<close>.\<close>

definition store_twice ::
  "collaborators \<Rightarrow> events_monitor \<Rightarrow> int \<Rightarrow> int \<Rightarrow> world \<Rightarrow>
     ((py_exception + unit) \<times> world) option" where
  "store_twice C self x y w =
     (case store_last_processed_block C self x w of
        None \<Rightarrow> None
      | Some (Inl e, w1) \<Rightarrow> Some (Inl e, w1)
      | Some (Inr _, w1) \<Rightarrow> store_last_processed_block C self y w1)"

text \<open>
  The sub-ranges of a scan, as pairs of a first and a last block. \<open>chained c rs\<close>: every
  sub-range holds at least one block, every sub-range but the last holds exactly \<open>c\<close>
  blocks and the last at most \<open>c\<close>, and each sub-range starts at the block after the end
  of the one before. \<open>blocks_of rs\<close> lists the blocks of the sub-ranges in the order
  they are queried, and \<open>query h r\<close> is the filter \<^verbatim>\<open>get_logs\<close> is called with for the
  sub-range \<open>r\<close> and the signature hash \<open>h\<close>.
\<close>

fun chained :: "int \<Rightarrow> (int \<times> int) list \<Rightarrow> bool" where
  "chained c [] = True"
| "chained c [(a, b)] = (a \<le> b \<and> b - a + 1 \<le> c)"
| "chained c ((a, b) # (a', b') # rs) =
     (a \<le> b \<and> b - a + 1 = c \<and> a' = b + 1 \<and> chained c ((a', b') # rs))"

definition blocks_of :: "(int \<times> int) list \<Rightarrow> int list" where
  "blocks_of rs = concat (map (\<lambda>r. [fst r..snd r]) rs)"

definition query :: "string \<Rightarrow> int \<times> int \<Rightarrow> filter_params" where
  "query h r = \<lparr>topics = [h], fromBlock = fst r, toBlock = snd r\<rparr>"

text \<open>The sub-ranges queried so far for the signature hash \<open>h\<close>, in order.\<close>

definition ranges_for :: "string \<Rightarrow> world \<Rightarrow> (int \<times> int) list" where
  "ranges_for h w =
     map (\<lambda>f. (fromBlock f, toBlock f)) (filter (\<lambda>f. topics f = [h]) (get_logs_calls w))"

text \<open>The first \<open>k\<close> iterations of the loop of \<^verbatim>\<open>run_monitor\<close>, from iteration \<open>n\<close> on.\<close>

fun run_iterations ::
  "collaborators \<Rightarrow> events_monitor \<Rightarrow> (nat \<Rightarrow> bool) \<Rightarrow> nat \<Rightarrow> nat \<Rightarrow> world \<Rightarrow> world option" where
  "run_iterations C self flag 0 n w = Some w"
| "run_iterations C self flag (Suc k) n w =
     (case do_run_monitor C (self\<lparr>monitor_is_on := flag n\<rparr>) w of
        None \<Rightarrow> None
      | Some w1 \<Rightarrow> run_iterations C self flag k (Suc n) w1)"

subsection \<open>Concrete inputs\<close>

text \<open>
  Collaborators that answer every call: the store is up and raises nothing, the default
  start block is 0, the ledger's head is block 1050 and holds no event of interest, and
  every processor returns without touching the index.
\<close>

definition healthy_store :: collaborators where
  "healthy_store =
     \<lparr>es_ping = (\<lambda>n. PingTrue),
      es_fault = (\<lambda>n. None),
      get_defined_block = (\<lambda>c. 0),
      eth_block_number = Inr (PyInt 1050),
      keccak = (\<lambda>t. t),
      eth_get_logs = (\<lambda>f. Inr []),
      toChecksumAddress = (\<lambda>v. case v of JString a \<Rightarrow> Inr a | _ \<Rightarrow> Inl TypeError),
      get_transaction_receipt = (\<lambda>h. Inl TransactionNotFound),
      processReceipt = (\<lambda>kind r. []),
      get_fre = None,
      get_dispenser = None,
      fre_exchange_token = (\<lambda>r. Inl IndexError),
      dispenser_datatoken = (\<lambda>r. Inl IndexError),
      getERC721Address = (\<lambda>a. Inr a),
      regular_processor = (\<lambda>name ev sender proofs chain docs. (Inr (), docs)),
      order_started_processor = (\<lambda>erc721 to_block chain docs. (Inr (), docs)),
      token_uri_processor = (\<lambda>ev chain docs. (Inr (), docs)),
      purgatory_update_lists = (\<lambda>docs. (Inr (), docs))\<rparr>"

text \<open>The same store with the default start block 7.\<close>

definition store_default_7 :: collaborators where
  "store_default_7 = healthy_store\<lparr>get_defined_block := (\<lambda>c. 7)\<rparr>"

text \<open>The same store, whose third call (other than a ping) raises \<^verbatim>\<open>ConnectionError\<close>.\<close>

definition store_third_call_fails :: collaborators where
  "store_third_call_fails =
     healthy_store\<lparr>es_fault := (\<lambda>n. if n = 2 then Some ConnectionError else None)\<rparr>"

text \<open>The same store when it never answers a ping with \<^verbatim>\<open>True\<close>.\<close>

definition store_down :: collaborators where
  "store_down = healthy_store\<lparr>es_ping := (\<lambda>n. PingNotTrue)\<rparr>"

text \<open>The same store, whose first call (other than a ping) raises \<^verbatim>\<open>ConnectionError\<close>.\<close>

definition first_read_fails :: collaborators where
  "first_read_fails =
     healthy_store\<lparr>es_fault := (\<lambda>n. if n = 0 then Some ConnectionError else None)\<rparr>"

definition monitor0 :: events_monitor where
  "monitor0 =
     \<lparr>chain_id = 1, start_block = 42, blockchain_chunk_size = 1000,
      monitor_is_on = True, purgatory_enabled = False\<rparr>"

definition empty_world :: world where
  "empty_world =
     \<lparr>last_block_doc = None, assets = [], ping_calls = 0, api_calls = 0,
      get_logs_calls = [], processed = [], logged = []\<rparr>"

text \<open>The world whose checkpoint document holds the block \<open>b\<close>.\<close>

definition world_at :: "int \<Rightarrow> world" where
  "world_at b = empty_world\<lparr>last_block_doc := Some b\<rparr>"

text \<open>The flag as the loop finds it when no thread ever sets it again.\<close>

definition always_off :: "nat \<Rightarrow> bool" where
  "always_off n = False"

text \<open>The flag cleared when the first iteration reads it, and set again from then on.\<close>

definition off_then_on :: "nat \<Rightarrow> bool" where
  "off_then_on n = (n \<noteq> 0)"

text \<open>
  A ledger with five \<^verbatim>\<open>MetadataCreated\<close> events, in the blocks 1 to 5. Every transaction
  has its receipt; the receipt of the second holds no event that decodes.
\<close>

definition event_in_block :: "int \<Rightarrow> string \<Rightarrow> raw_log" where
  "event_in_block n h = \<lparr>address = ''0xA1'', transactionHash = h, blockNumber = n\<rparr>"

definition five_events :: "raw_log list" where
  "five_events =
     [event_in_block 1 ''tx1'', event_in_block 2 ''tx2'', event_in_block 3 ''tx3'',
      event_in_block 4 ''tx4'', event_in_block 5 ''tx5'']"

definition second_event_undecodable :: collaborators where
  "second_event_undecodable =
     healthy_store
       \<lparr>eth_block_number := Inr (PyInt 5),
        eth_get_logs :=
          (\<lambda>f. if topics f = [hash_text EVENT_METADATA_CREATED]
               then Inr (filter (\<lambda>ev. fromBlock f \<le> blockNumber ev \<and> blockNumber ev \<le> toBlock f)
                           five_events)
               else Inr []),
        get_transaction_receipt := (\<lambda>h. Inr \<lparr>tx_hash = h, tx_from = ''0xB2'', tx_to = ''0xA1''\<rparr>),
        processReceipt :=
          (\<lambda>kind r. if kind = EVENT_METADATA_CREATED \<and> tx_hash r \<noteq> ''tx2''
                    then [\<lparr>event = kind, args = []\<rparr>] else [])\<rparr>"

text \<open>
  The same ledger when every event decodes and the processor of the second raises.
\<close>

definition second_processor_raises :: collaborators where
  "second_processor_raises =
     second_event_undecodable
       \<lparr>processReceipt :=
          (\<lambda>kind r. if kind = EVENT_METADATA_CREATED then [\<lparr>event = kind, args = [(''tx'', JString (tx_hash r))]\<rparr>] else []),
        regular_processor :=
          (\<lambda>name ev sender proofs chain docs.
             if args ev = [(''tx'', JString ''tx2'')] then (Inl ValueError, docs) else (Inr (), docs))\<rparr>"

text \<open>
  A world with three documents of chain 1, one of chain 2, and the checkpoint 1000.
\<close>

definition three_documents :: world where
  "three_documents =
     empty_world
       \<lparr>last_block_doc := Some 1000,
        assets :=
          [\<lparr>asset_id = ''did:op:1'', chainId = 1\<rparr>, \<lparr>asset_id = ''did:op:2'', chainId = 1\<rparr>,
           \<lparr>asset_id = ''did:op:3'', chainId = 2\<rparr>, \<lparr>asset_id = ''did:op:4'', chainId = 1\<rparr>]\<rparr>"

text \<open>
  The kinds of event in the order \<^verbatim>\<open>process_block_range\<close> scans them, the queries of
  one scan of the sub-ranges \<open>rs\<close> for every kind, and the world a cycle leaves when the
  checkpoint is 0, the head is block 1050, the outer chunk size is 1000 and the ledger
  holds no event.
\<close>

definition scan_order :: "string list" where
  "scan_order =
     [EVENT_METADATA_CREATED, EVENT_METADATA_UPDATED, EVENT_METADATA_STATE,
      EVENT_ORDER_STARTED, EVENT_EXCHANGE_CREATED, EVENT_EXCHANGE_RATE_CHANGED,
      EVENT_DISPENSER_CREATED, EVENT_TOKEN_URI_UPDATE]"

definition scans_of :: "(int \<times> int) list \<Rightarrow> filter_params list" where
  "scans_of rs = concat (map (\<lambda>name. map (query (hash_text name)) rs) scan_order)"

text \<open>
  The scans of a cycle as pairs of a kind of event and a sub-range: one scan of the
  sub-ranges \<open>rs\<close> for every kind, the scans of the cycle from the checkpoint 0 to the
  head 1050 with the outer chunk size 1000, and the filter \<^verbatim>\<open>get_logs\<close> is called with
  for a scan.
\<close>

definition scans_in_order :: "(int \<times> int) list \<Rightarrow> (string \<times> int \<times> int) list" where
  "scans_in_order rs = concat (map (\<lambda>name. map (Pair name) rs) scan_order)"

definition cycle_scans :: "(string \<times> int \<times> int) list" where
  "cycle_scans =
     scans_in_order [(0, 0)] @ scans_in_order [(0, 999), (1000, 1000)]
     @ scans_in_order [(1000, 1050)]"

definition scan_query :: "collaborators \<Rightarrow> string \<times> int \<times> int \<Rightarrow> filter_params" where
  "scan_query C s = query (keccak C (hash_text (fst s))) (snd s)"

definition after_quiet_cycle :: world where
  "after_quiet_cycle =
     \<lparr>last_block_doc = Some 1050, assets = [], ping_calls = 4, api_calls = 6,
      get_logs_calls =
        scans_of [(0, 0)] @ scans_of [(0, 999), (1000, 1000)] @ scans_of [(1000, 1050)],
      processed = [], logged = []\<rparr>"

text \<open>
  An event of the batch decodes: its contract address normalises, its transaction has a
  receipt, and the receipt holds an event of the kind.
\<close>

definition decodes :: "collaborators \<Rightarrow> string \<Rightarrow> raw_log \<Rightarrow> bool" where
  "decodes C kind ev =
     (\<exists>a r. toChecksumAddress C (JString (address ev)) = Inr a
            \<and> get_transaction_receipt C (transactionHash ev) = Inr r
            \<and> processReceipt C kind r \<noteq> [])"

text \<open>
  Inputs of the proof checker: a normaliser that accepts the strings that start with
  \<^verbatim>\<open>0x\<close>, a stand-in for \<^verbatim>\<open>json.loads\<close> that decodes two texts, and the proof of a
  validator.
\<close>

definition checksum_0x :: "json \<Rightarrow> py_exception + string" where
  "checksum_0x v =
     (case v of
        JString a \<Rightarrow> if take 2 a = ''0x'' then Inr a else Inl ValueError
      | _ \<Rightarrow> Inl TypeError)"

definition loads_stub :: "string \<Rightarrow> py_exception + json" where
  "loads_stub text =
     (if text = ''[\"0xA1\", \"0xB2\"]'' then Inr (JArray [JString ''0xA1'', JString ''0xB2''])
      else if text = ''5'' then Inr (JNumber 5)
      else Inl JSONDecodeError)"

definition proof_by :: "string \<Rightarrow> event_data" where
  "proof_by a = \<lparr>event = ''MetadataValidated'', args = [(''validator'', JString a)]\<rparr>"

section \<open>The checkpoint store: properties\<close>

text \<open>The definitions a concrete run unfolds.\<close>

lemmas run_defs =
  process_current_blocks_def process_block_range_def handle_regular_event_processor_def
  handle_price_change_def handle_token_uri_update_def get_event_logs_def
  store_last_processed_block_def get_last_processed_block_def es_get_last_block_def
  es_index_last_block_def last_block_handler_def pinged_def called_def log_error_def
  get_value_def get_all_values_def hash_text_def default_chunk_size_def py_range_def
  EVENT_METADATA_CREATED_def EVENT_METADATA_UPDATED_def EVENT_METADATA_STATE_def
  EVENT_ORDER_STARTED_def EVENT_TOKEN_URI_UPDATE_def EVENT_EXCHANGE_CREATED_def
  EVENT_EXCHANGE_RATE_CHANGED_def EVENT_DISPENSER_CREATED_def
  healthy_store_def monitor0_def empty_world_def world_at_def
  get_logs_loop.simps wait_for_es.simps

lemma wait_for_es_up:
  "es_ping C (ping_calls w) = PingTrue \<Longrightarrow> wait_for_es C w = Some (Inr (), pinged w)"
  by (subst wait_for_es.simps) simp

text \<open>
  The loop that waits for the store ends as soon as a ping is answered by \<^verbatim>\<open>True\<close> or by
  an exception that is not the store's own: after \<open>k\<close> failed pings it has made
  \<open>k + 1\<close> calls and changed nothing but the log.
\<close>

lemma wait_for_es_exits:
  assumes "\<forall>j<k. retrying (es_ping C (ping_calls w + j))"
      and "\<not> retrying (es_ping C (ping_calls w + k))"
  shows "\<exists>w'. wait_for_es C w = Some (ping_exit (es_ping C (ping_calls w + k)), w')
           \<and> same_store w w' \<and> api_calls w' = api_calls w
           \<and> ping_calls w' = ping_calls w + Suc k"
  using assms
proof (induction k arbitrary: w)
  case 0
  then show ?case
    by (subst wait_for_es.simps)
       (auto simp: same_store_def pinged_def split: ping_reply.splits)
next
  case (Suc k)
  from Suc.prems(1) have r0: "retrying (es_ping C (ping_calls w))"
    by (metis add.right_neutral zero_less_Suc)
  define w1 where "w1 = (case es_ping C (ping_calls w) of
      PingRaises e \<Rightarrow> log_error [Elasticsearch_error e, Connection_to_ES_failed] (pinged w)
    | _ \<Rightarrow> log_error [Connection_to_ES_failed] (pinged w))"
  have step: "wait_for_es C w = wait_for_es C w1"
    using r0 by (subst wait_for_es.simps) (auto simp: w1_def split: ping_reply.splits)
  have pc: "ping_calls w1 = Suc (ping_calls w)" and ss: "same_store w w1"
    and ac: "api_calls w1 = api_calls w"
    by (auto simp: w1_def pinged_def log_error_def same_store_def split: ping_reply.splits)
  have "\<forall>j<k. retrying (es_ping C (ping_calls w1 + j))"
    using Suc.prems(1) pc by (metis Suc_less_eq add_Suc_shift)
  moreover have "\<not> retrying (es_ping C (ping_calls w1 + k))"
    using Suc.prems(2) pc by simp
  ultimately obtain w' where
    "wait_for_es C w1 = Some (ping_exit (es_ping C (ping_calls w1 + k)), w')"
    "same_store w1 w'" "api_calls w' = api_calls w1" "ping_calls w' = ping_calls w1 + Suc k"
    using Suc.IH[of w1] by blast
  then show ?case using step pc ss ac by (auto simp: same_store_def)
qed

text \<open>
  Conversely, the loop returns only if some ping is answered so: a store that never
  answers keeps \<^verbatim>\<open>get_last_processed_block\<close> from returning.
\<close>

lemma wait_for_es_returns_after_exit:
  assumes "wait_for_es C w = Some y"
  shows "\<exists>n\<ge>ping_calls w. \<not> retrying (es_ping C n)"
  using assms
proof (induction rule: wait_for_es.raw_induct[rotated 1, consumes 1])
  case (1 wait C w y)
  show ?case
  proof (cases "retrying (es_ping C (ping_calls w))")
    case False
    then show ?thesis by blast
  next
    case True
    then obtain w1 where "wait C w1 = Some y" "ping_calls w1 = Suc (ping_calls w)"
      using 1(2)
      by (cases "es_ping C (ping_calls w)")
         (auto simp: pinged_def log_error_def split: if_splits)
    with 1(1)[of C w1 y] show ?thesis by (metis Suc_leD)
  qed
qed

lemma wait_for_es_down: "\<forall>n. retrying (es_ping C n) \<Longrightarrow> wait_for_es C w = None"
  using wait_for_es_returns_after_exit[of C w] by (cases "wait_for_es C w") auto

lemma get_last_processed_block_down:
  "\<forall>n. retrying (es_ping C n) \<Longrightarrow> get_last_processed_block C self w = None"
  by (simp add: get_last_processed_block_def wait_for_es_down)

lemma get_last_processed_block_healthy:
  assumes "\<forall>n. es_ping C n = PingTrue" and "\<forall>n. es_fault C n = None"
  shows "get_last_processed_block C self w =
           Some (case last_block_doc w of
                   None \<Rightarrow> get_defined_block C (chain_id self)
                 | Some b \<Rightarrow> if 0 \<le> b then b else get_defined_block C (chain_id self),
                 called (pinged w))"
  using assms
  by (simp add: get_last_processed_block_def wait_for_es_up es_get_last_block_def
        last_block_handler_def pinged_def called_def split: option.splits)

lemma store_last_processed_block_healthy:
  assumes "\<forall>n. es_ping C n = PingTrue" and "\<forall>n. es_fault C n = None"
      and "get_last_processed_block C self w = Some (r, w0)"
  shows "store_last_processed_block C self block w =
           Some (Inr (), if block \<le> r then w0 else (called w0)\<lparr>last_block_doc := Some block\<rparr>)"
  using assms
  by (simp add: store_last_processed_block_def es_index_last_block_def)

text \<open>
  What \<^verbatim>\<open>get_last_processed_block\<close> returns once the wait for the store ends at the
  ping number \<open>k\<close>.
\<close>

lemma get_last_processed_block_reads:
  assumes "\<forall>j<k. retrying (es_ping C (ping_calls w + j))"
      and "\<not> retrying (es_ping C (ping_calls w + k))"
  shows "\<exists>w'. get_last_processed_block C self w =
             Some (if es_ping C (ping_calls w + k) = PingTrue \<and> es_fault C (api_calls w) = None
                   then (case last_block_doc w of
                           None \<Rightarrow> get_defined_block C (chain_id self)
                         | Some b \<Rightarrow>
                             if 0 \<le> b then b else get_defined_block C (chain_id self))
                   else get_defined_block C (chain_id self), w')
           \<and> same_store w w'"
proof -

  obtain w1 where w1: "wait_for_es C w = Some (ping_exit (es_ping C (ping_calls w + k)), w1)"
    "same_store w w1" "api_calls w1 = api_calls w"
    using wait_for_es_exits[OF assms] by blast
  show ?thesis
  proof (cases "es_ping C (ping_calls w + k)")
    case PingTrue
    then show ?thesis using w1
      by (auto simp: get_last_processed_block_def es_get_last_block_def last_block_handler_def
            same_store_def called_def log_error_def split: option.splits)
  next
    case PingNotTrue
    then show ?thesis using assms(2) by simp
  next
    case (PingRaises e)
    then have "e \<noteq> NotFoundError" using assms(2) by auto
    then show ?thesis using w1 PingRaises
      by (auto simp: get_last_processed_block_def last_block_handler_def
            same_store_def log_error_def)
  qed
qed

text \<open>
  C8, as amended. Once the store answers the connectivity check (the ping number \<open>k\<close>
  is the first that is answered by \<^verbatim>\<open>True\<close> or by an exception other than the store's
  own), \<^verbatim>\<open>get_last_processed_block\<close> returns a block and raises nothing: the stored value
  when the ping said \<^verbatim>\<open>True\<close>, the read succeeded and the stored value is not negative;
  the default start block \<^verbatim>\<open>get_defined_block(chain_id)\<close> when the stored value is
  negative, the document does not exist, or the ping or the read raised. It leaves the
  documents as they were.
\<close>

theorem get_last_processed_block_default:
  assumes "\<forall>j<k. retrying (es_ping C (ping_calls w + j))"
      and "\<not> retrying (es_ping C (ping_calls w + k))"
  shows "\<exists>w'. get_last_processed_block C self w =
             Some (if es_ping C (ping_calls w + k) = PingTrue \<and> es_fault C (api_calls w) = None
                   then (case last_block_doc w of
                           None \<Rightarrow> get_defined_block C (chain_id self)
                         | Some b \<Rightarrow>
                             if 0 \<le> b then b else get_defined_block C (chain_id self))
                   else get_defined_block C (chain_id self), w')
           \<and> same_store w w'"
  using get_last_processed_block_reads[OF assms] .

text \<open>The theorem at a store that is up and holds the checkpoint 100.\<close>

theorem get_last_processed_block_default_witness:
  "\<exists>w'. get_last_processed_block healthy_store monitor0 (world_at 100) = Some (100, w')
        \<and> same_store (world_at 100) w'"
  using get_last_processed_block_default [of 0 healthy_store "world_at 100" monitor0]
  by (simp add: healthy_store_def world_at_def empty_world_def)

text \<open>
  C8 as stated fails: with the stored value \<open>-1\<close> and the default start block 7, the
  stored value exists and \<^verbatim>\<open>get_last_processed_block\<close> returns 7. And with the
  stored value 100 and a store that never answers the ping, it does not return.
\<close>

theorem get_last_processed_block_negative_counterexample:
  "last_block_doc (world_at (- 1)) = Some (- 1)
   \<and> map_option fst (get_last_processed_block store_default_7 monitor0 (world_at (- 1)))
       = Some 7
   \<and> last_block_doc (world_at 100) = Some 100
   \<and> get_last_processed_block store_down monitor0 (world_at 100) = None"
proof -
  have "get_last_processed_block store_down monitor0 (world_at 100) = None"
    by (rule get_last_processed_block_down) (simp add: store_down_def)
  moreover have "map_option fst
      (get_last_processed_block store_default_7 monitor0 (world_at (- 1))) = Some 7"
    by (simp add: get_last_processed_block_def wait_for_es.simps healthy_store_def
          store_default_7_def world_at_def empty_world_def es_get_last_block_def monitor0_def
          pinged_def called_def)
  ultimately show ?thesis by (simp add: world_at_def empty_world_def)
qed

text \<open>
  What holds on a store that answers every call, for a block \<open>x\<close> that is not negative:
  \<^verbatim>\<open>store_last_processed_block(x)\<close> reads the checkpoint \<open>r\<close> through
  \<^verbatim>\<open>get_last_processed_block\<close>, writes nothing when \<open>x \<le> r\<close> and writes \<open>x\<close> otherwise, and
  a following \<^verbatim>\<open>store_last_processed_block(y)\<close> with \<open>y \<le> x\<close> writes nothing.
\<close>

lemma store_twice_on_healthy_store:
  assumes up: "\<forall>n. es_ping C n = PingTrue" and ok: "\<forall>n. es_fault C n = None"
      and x0: "0 \<le> x" and yx: "y \<le> x"
  shows "\<exists>r w0 w1 w2.
           get_last_processed_block C self w = Some (r, w0)
           \<and> store_last_processed_block C self x w = Some (Inr (), w1)
           \<and> last_block_doc w1 = (if x \<le> r then last_block_doc w else Some x)
           \<and> store_last_processed_block C self y w1 = Some (Inr (), w2)
           \<and> last_block_doc w2 = last_block_doc w1"
proof -
  define D where "D = get_defined_block C (chain_id self)"
  define r where "r = (case last_block_doc w of None \<Rightarrow> D | Some b \<Rightarrow> if 0 \<le> b then b else D)"
  define w0 where "w0 = called (pinged w)"
  define w1 where "w1 = (if x \<le> r then w0 else (called w0)\<lparr>last_block_doc := Some x\<rparr>)"
  have g: "get_last_processed_block C self w = Some (r, w0)"
    using get_last_processed_block_healthy[OF up ok]
    by (simp add: r_def w0_def D_def split: option.splits)
  have s1: "store_last_processed_block C self x w = Some (Inr (), w1)"
    using store_last_processed_block_healthy[OF up ok g] by (simp add: w1_def)
  have d0: "last_block_doc w0 = last_block_doc w"
    by (simp add: w0_def called_def pinged_def)
  define r1 where "r1 = (case last_block_doc w1 of None \<Rightarrow> D | Some b \<Rightarrow> if 0 \<le> b then b else D)"
  have g1: "get_last_processed_block C self w1 = Some (r1, called (pinged w1))"
    using get_last_processed_block_healthy[OF up ok]
    by (simp add: r1_def D_def split: option.splits)
  have "x \<le> r1"
    using x0 d0 by (auto simp: r1_def w1_def r_def called_def split: option.splits if_splits)
  then have "y \<le> r1" using yx by simp
  then have s2: "store_last_processed_block C self y w1 = Some (Inr (), called (pinged w1))"
    using store_last_processed_block_healthy[OF up ok g1] by simp
  have "last_block_doc w1 = (if x \<le> r then last_block_doc w else Some x)"
    using d0 by (simp add: w1_def called_def)
  moreover have "last_block_doc (called (pinged w1)) = last_block_doc w1"
    by (simp add: called_def pinged_def)
  ultimately show ?thesis using g s1 s2 by blast
qed

text \<open>
  C1, at the spec's example with a read that fails. On a new chain whose default start
  block is 0, \<^verbatim>\<open>store_last_processed_block(100)\<close> stores 100. The store then raises
  \<^verbatim>\<open>ConnectionError\<close> on the read of \<^verbatim>\<open>store_last_processed_block(50)\<close>:
  \<^verbatim>\<open>get_last_processed_block\<close> logs the error and returns the default start block 0, 50
  is above it, and 50 is written over 100.
\<close>

theorem failed_read_lowers_the_checkpoint:
  "map_option (\<lambda>r. (fst r, last_block_doc (snd r)))
     (store_last_processed_block store_third_call_fails monitor0 100 empty_world)
   = Some (Inr (), Some 100)
   \<and> map_option (\<lambda>r. (fst r, last_block_doc (snd r)))
       (store_twice store_third_call_fails monitor0 100 50 empty_world)
     = Some (Inr (), Some 50)"
  by (simp add: store_twice_def store_last_processed_block_def get_last_processed_block_def
        wait_for_es.simps healthy_store_def store_third_call_fails_def
        empty_world_def es_get_last_block_def monitor0_def pinged_def called_def
        es_index_last_block_def last_block_handler_def log_error_def)

section \<open>The block range scanner: properties\<close>

lemma upto_append_next: "i \<le> j + 1 \<Longrightarrow> j \<le> k \<Longrightarrow> [i..j] @ [j + 1..k] = [i..k]"
  using upto_split1[of i "j + 1" k] by (cases "j = k") auto

text \<open>
  The invariant of the loop of \<^verbatim>\<open>get_event_logs\<close>, for a chunk size of at least 1: it
  ends, either with the logs or with the exception of a query, and the sub-ranges it
  queried are chained and start at \<open>from'\<close>. When it ends with the logs, every query
  answered, the logs are the answers in order and the sub-ranges cover
  \<open>[from'..to_block]\<close>; when it ends with an exception, the last query raised it and the
  sub-ranges cover the blocks up to the end of that query.
\<close>

lemma get_logs_loop_ranges:
  assumes c: "1 \<le> c"
  shows "to' = min (from' + c - 1) to_block \<Longrightarrow>
         \<exists>r rs. get_logs_loop C h to_block c from' to' acc w =
                  Some (r, w\<lparr>get_logs_calls := get_logs_calls w @ map (query h) rs\<rparr>)
            \<and> chained c rs
            \<and> (from' \<le> to_block \<longrightarrow> rs \<noteq> [])
            \<and> (rs \<noteq> [] \<longrightarrow> from' \<le> to_block \<and> fst (hd rs) = from')
            \<and> (case r of
                  Inr logs \<Rightarrow>
                    blocks_of rs = [from'..to_block]
                    \<and> (\<exists>parts. map (\<lambda>r. eth_get_logs C (query h r)) rs = map Inr parts
                               \<and> logs = acc @ concat parts)
                | Inl e \<Rightarrow>
                    rs \<noteq> [] \<and> eth_get_logs C (query h (last rs)) = Inl e
                    \<and> (\<exists>n. from' \<le> n \<and> n \<le> to_block \<and> blocks_of rs = [from'..n]))"
proof (induction "nat (to_block + 1 - from')" arbitrary: from' to' acc w rule: less_induct)
  case less
  show ?case
  proof (cases "from' \<le> to_block")
    case False
    then have "get_logs_loop C h to_block c from' to' acc w = Some (Inr acc, w)"
      by (subst get_logs_loop.simps) simp
    then show ?thesis using False
      by (intro exI[of _ "Inr acc"] exI[of _ "[]"]) (simp add: blocks_of_def)
  next
    case True
    have to1: "from' \<le> to'" "to' \<le> to_block" "to' - from' + 1 \<le> c"
      using True c less.prems by auto
    define w1 where "w1 = w\<lparr>get_logs_calls := get_logs_calls w @ [query h (from', to')]\<rparr>"
    show ?thesis
    proof (cases "eth_get_logs C (query h (from', to'))")
      case (Inl e)
      then have "get_logs_loop C h to_block c from' to' acc w = Some (Inl e, w1)"
        using True by (subst get_logs_loop.simps) (simp add: query_def w1_def)
      then show ?thesis using to1 True Inl
        by (intro exI[of _ "Inl e"] exI[of _ "[(from', to')]"])
           (auto simp: w1_def blocks_of_def)
    next
      case (Inr logs)
      define from2 where "from2 = to' + 1"
      define to2 where "to2 = min (from2 + c - 1) to_block"
      have step: "get_logs_loop C h to_block c from' to' acc w =
                    get_logs_loop C h to_block c from2 to2 (acc @ logs) w1"
        using True Inr
        by (subst get_logs_loop.simps) (simp add: query_def w1_def from2_def to2_def)
      have "nat (to_block + 1 - from2) < nat (to_block + 1 - from')"
        using to1 True by (simp add: from2_def)
      from less.hyps[OF this, of to2 "acc @ logs" w1] to2_def
      obtain r rs where ih:
        "get_logs_loop C h to_block c from2 to2 (acc @ logs) w1 =
           Some (r, w1\<lparr>get_logs_calls := get_logs_calls w1 @ map (query h) rs\<rparr>)"
        "chained c rs" "from2 \<le> to_block \<longrightarrow> rs \<noteq> []"
        "rs \<noteq> [] \<longrightarrow> from2 \<le> to_block \<and> fst (hd rs) = from2"
        "case r of
           Inr ls \<Rightarrow>
             blocks_of rs = [from2..to_block]
             \<and> (\<exists>parts. map (\<lambda>r. eth_get_logs C (query h r)) rs = map Inr parts
                        \<and> ls = (acc @ logs) @ concat parts)
         | Inl e \<Rightarrow>
             rs \<noteq> [] \<and> eth_get_logs C (query h (last rs)) = Inl e
             \<and> (\<exists>n. from2 \<le> n \<and> n \<le> to_block \<and> blocks_of rs = [from2..n])"
        by blast
      have ch: "chained c ((from', to') # rs)"
      proof (cases rs)
        case Nil
        then show ?thesis using to1 by simp
      next
        case (Cons p ps)
        then have "from2 \<le> to_block" "fst p = from2" using ih(4) by auto
        then have "to' = from' + c - 1" using less.prems by (auto simp: from2_def)
        then show ?thesis using Cons \<open>fst p = from2\<close> ih(2) to1
          by (cases p) (auto simp: from2_def)
      qed
      have cov: "case r of
                   Inr ls \<Rightarrow>
                     blocks_of ((from', to') # rs) = [from'..to_block]
                     \<and> (\<exists>parts. map (\<lambda>r. eth_get_logs C (query h r)) ((from', to') # rs)
                                   = map Inr parts
                                \<and> ls = acc @ concat parts)
                 | Inl e \<Rightarrow>
                     (from', to') # rs \<noteq> []
                     \<and> eth_get_logs C (query h (last ((from', to') # rs))) = Inl e
                     \<and> (\<exists>n. from' \<le> n \<and> n \<le> to_block
                            \<and> blocks_of ((from', to') # rs) = [from'..n])"
      proof (cases r)
        case (Inl e)
        then obtain n where n: "from2 \<le> n" "n \<le> to_block" "blocks_of rs = [from2..n]"
          and l: "rs \<noteq> []" "eth_get_logs C (query h (last rs)) = Inl e"
          using ih(5) by auto
        have "[from'..to'] @ [to' + 1..n] = [from'..n]"
          using to1 n by (intro upto_append_next) (auto simp: from2_def)
        then show ?thesis using Inl n to1 l
          by (auto simp: blocks_of_def from2_def intro!: exI[of _ n])
      next
        case (Inr ls)
        then obtain parts where p:
          "map (\<lambda>r. eth_get_logs C (query h r)) rs = map Inr parts"
          "ls = (acc @ logs) @ concat parts" "blocks_of rs = [from2..to_block]"
          using ih(5) by auto
        have "[from'..to'] @ [to' + 1..to_block] = [from'..to_block]"
          using to1 by (intro upto_append_next) auto
        moreover have "\<exists>ps. map (\<lambda>r. eth_get_logs C (query h r)) ((from', to') # rs)
                              = map Inr ps \<and> ls = acc @ concat ps"
          using p(1,2) \<open>eth_get_logs C (query h (from', to')) = Inr logs\<close>
          by (intro exI[of _ "logs # parts"]) simp
        ultimately show ?thesis using Inr p(3)
          by (simp add: blocks_of_def from2_def)
      qed
      have "w1\<lparr>get_logs_calls := get_logs_calls w1 @ map (query h) rs\<rparr> =
            w\<lparr>get_logs_calls := get_logs_calls w @ map (query h) ((from', to') # rs)\<rparr>"
        by (simp add: w1_def)
      then show ?thesis using step ih(1) ch cov True
        by (intro exI[of _ r] exI[of _ "(from', to') # rs"]) simp
    qed
  qed
qed

text \<open>
  C4. For a known kind of event, \<open>from_block \<le> to_block\<close> and a chunk size of at least 1,
  \<^verbatim>\<open>get_event_logs\<close> ends, and the sub-ranges \<open>rs\<close> it queried, in order, are chained:
  contiguous, without overlap, of at most \<open>chunk_size\<close> blocks, only the last one possibly
  shorter. It returns the logs unless a query raised: when every query of the ledger
  answers, the scan returns, the logs are those of the sub-ranges in order, and the blocks
  of the sub-ranges are exactly those of \<open>[from_block..to_block]\<close>, each once and in
  order. It raises only the exception of the last query it made, and then the sub-ranges
  queried cover the blocks up to the end of that query.
\<close>

theorem get_event_logs_sub_ranges:
  assumes "from_block \<le> to_block" and "1 \<le> chunk_size"
      and "event_name \<in> set get_all_values"
  shows "\<exists>r rs. get_event_logs C event_name from_block to_block chunk_size w =
             Some (r, w\<lparr>get_logs_calls := get_logs_calls w @
                            map (query (keccak C (hash_text event_name))) rs\<rparr>)
           \<and> chained chunk_size rs \<and> rs \<noteq> []
           \<and> (case r of
                 Inr logs \<Rightarrow>
                   blocks_of rs = [from_block..to_block]
                   \<and> (\<exists>parts. map (\<lambda>r. eth_get_logs C
                                          (query (keccak C (hash_text event_name)) r)) rs
                                = map Inr parts
                              \<and> logs = concat parts)
               | Inl e \<Rightarrow>
                   eth_get_logs C (query (keccak C (hash_text event_name)) (last rs)) = Inl e
                   \<and> (\<exists>n. from_block \<le> n \<and> n \<le> to_block
                          \<and> blocks_of rs = [from_block..n]))
           \<and> ((\<forall>f. \<exists>logs. eth_get_logs C f = Inr logs) \<longrightarrow> (\<exists>logs. r = Inr logs))"
proof -
  define h where "h = keccak C (hash_text event_name)"
  from get_logs_loop_ranges[OF assms(2), of "min (from_block + chunk_size - 1) to_block"
      from_block to_block C h "[]" w]
  obtain r rs where l:
    "get_logs_loop C h to_block chunk_size from_block
       (min (from_block + chunk_size - 1) to_block) [] w =
       Some (r, w\<lparr>get_logs_calls := get_logs_calls w @ map (query h) rs\<rparr>)"
    "chained chunk_size rs" "from_block \<le> to_block \<longrightarrow> rs \<noteq> []"
    "case r of
       Inr logs \<Rightarrow>
         blocks_of rs = [from_block..to_block]
         \<and> (\<exists>parts. map (\<lambda>r. eth_get_logs C (query h r)) rs = map Inr parts
                    \<and> logs = [] @ concat parts)
     | Inl e \<Rightarrow>
         rs \<noteq> [] \<and> eth_get_logs C (query h (last rs)) = Inl e
         \<and> (\<exists>n. from_block \<le> n \<and> n \<le> to_block \<and> blocks_of rs = [from_block..n])"
    by blast
  have "(\<forall>f. \<exists>logs. eth_get_logs C f = Inr logs) \<longrightarrow> (\<exists>logs. r = Inr logs)"
  proof
    assume a: "\<forall>f. \<exists>logs. eth_get_logs C f = Inr logs"
    show "\<exists>logs. r = Inr logs"
    proof (cases r)
      case (Inl e)
      then have "eth_get_logs C (query h (last rs)) = Inl e" using l(4) by simp
      moreover obtain ls where "eth_get_logs C (query h (last rs)) = Inr ls" using a by blast
      ultimately show ?thesis by simp
    next
      case (Inr ls)
      then show ?thesis by blast
    qed
  qed
  then show ?thesis using l assms(1,3) unfolding h_def
    by (intro exI[of _ r] exI[of _ rs]) (auto simp: get_event_logs_def split: sum.splits)
qed

text \<open>
  The theorem at the scan of the blocks 0 to 1050 in chunks of 1000, on a ledger that
  answers every query with no log.
\<close>

theorem get_event_logs_sub_ranges_witness:
  "\<exists>rs. get_event_logs healthy_store EVENT_METADATA_CREATED 0 1050 1000 empty_world =
       Some (Inr [], empty_world\<lparr>get_logs_calls :=
                      map (query (hash_text EVENT_METADATA_CREATED)) rs\<rparr>)
     \<and> chained 1000 rs \<and> rs \<noteq> [] \<and> blocks_of rs = [0..1050]"
proof -
  have q: "\<forall>f. \<exists>logs. eth_get_logs healthy_store f = Inr logs"
    by (simp add: healthy_store_def)
  have m: "EVENT_METADATA_CREATED \<in> set get_all_values" by (simp add: get_all_values_def)
  have b: "(0::int) \<le> 1050" "(1::int) \<le> 1000" by simp_all
  from get_event_logs_sub_ranges [OF b m, of healthy_store empty_world]
  obtain r rs where h:
    "get_event_logs healthy_store EVENT_METADATA_CREATED 0 1050 1000 empty_world =
       Some (r, empty_world\<lparr>get_logs_calls := get_logs_calls empty_world @
                map (query (keccak healthy_store (hash_text EVENT_METADATA_CREATED))) rs\<rparr>)"
    "chained 1000 rs" "rs \<noteq> []"
    "case r of
       Inr logs \<Rightarrow>
         blocks_of rs = [0..1050]
         \<and> (\<exists>parts. map (\<lambda>r. eth_get_logs healthy_store
                          (query (keccak healthy_store (hash_text EVENT_METADATA_CREATED)) r)) rs
                      = map Inr parts
                    \<and> logs = concat parts)
     | Inl e \<Rightarrow>
         eth_get_logs healthy_store
           (query (keccak healthy_store (hash_text EVENT_METADATA_CREATED)) (last rs)) = Inl e
         \<and> (\<exists>n. 0 \<le> n \<and> n \<le> 1050 \<and> blocks_of rs = [0..n])"
    "(\<forall>f. \<exists>logs. eth_get_logs healthy_store f = Inr logs) \<longrightarrow> (\<exists>logs. r = Inr logs)"
    by blast
  from h(5) q obtain logs where r: "r = Inr logs" by blast
  then obtain parts where p:
    "map (\<lambda>r. eth_get_logs healthy_store
            (query (keccak healthy_store (hash_text EVENT_METADATA_CREATED)) r)) rs
       = map Inr parts" "logs = concat parts" "blocks_of rs = [0..1050]"
    using h(4) by auto
  have "map Inr (map (\<lambda>r. []) rs) = (map Inr parts :: (py_exception + raw_log list) list)"
    using p(1) by (simp add: healthy_store_def o_def)
  then have "map (\<lambda>r. []) rs = parts"
    by (simp only: inj_map_eq_map[OF inj_Inr])
  then have "logs = []" using p(2) by auto
  then show ?thesis using h(1,2,3) r p(3)
    by (intro exI[of _ rs]) (simp add: healthy_store_def empty_world_def)
qed

section \<open>The monitor loop: properties\<close>

text \<open>What the loop that waits for the store leaves, when it ends.\<close>

lemma wait_for_es_same_store:
  assumes "wait_for_es C w = Some y"
  shows "same_store w (snd y) \<and> api_calls (snd y) = api_calls w"
  using assms
proof (induction rule: wait_for_es.raw_induct[rotated 1, consumes 1])
  case (1 wait C w y)
  show ?case
  proof (cases "es_ping C (ping_calls w)")
    case PingTrue
    then show ?thesis using 1(2) by (auto simp: same_store_def pinged_def)
  next
    case PingNotTrue
    then have "wait C (log_error [Connection_to_ES_failed] (pinged w)) = Some y"
      using 1(2) by simp
    from 1(1)[OF this] show ?thesis
      by (simp add: same_store_def pinged_def log_error_def)
  next
    case (PingRaises e)
    show ?thesis
    proof (cases "is_ElasticsearchException e")
      case True
      then have "wait C (log_error [Elasticsearch_error e, Connection_to_ES_failed] (pinged w))
                   = Some y"
        using 1(2) PingRaises by simp
      from 1(1)[OF this] show ?thesis
        by (simp add: same_store_def pinged_def log_error_def)
    next
      case False
      then show ?thesis using 1(2) PingRaises by (auto simp: same_store_def pinged_def)
    qed
  qed
qed

lemma get_last_processed_block_same_store:
  assumes "get_last_processed_block C self w = Some (v, w')"
  shows "same_store w w'"
proof -
  obtain r w1 where w1: "wait_for_es C w = Some (r, w1)"
    using assms by (cases "wait_for_es C w") (auto simp: get_last_processed_block_def)
  then have "same_store w w1" using wait_for_es_same_store by fastforce
  then show ?thesis using assms w1
    by (auto simp: get_last_processed_block_def es_get_last_block_def last_block_handler_def
          same_store_def called_def log_error_def Let_def
          split: option.splits sum.splits if_splits prod.splits)
qed

text \<open>
  C10, as amended. Once the store answers the connectivity check (at the ping number
  \<open>k\<close>), let \<open>checkpoint_read\<close> be the checkpoint \<^verbatim>\<open>process_current_blocks\<close> reads through
  \<^verbatim>\<open>get_last_processed_block\<close>: the stored checkpoint when the read succeeds and the
  stored value is not negative, the default start block otherwise. If the head block the
  ledger reports is falsy, is not an integer, or is at most that checkpoint, the method
  returns without raising: the world it leaves is the one the read left, in which no
  range was queried, no event was processed and the checkpoint document is what it was.
\<close>

theorem process_current_blocks_noop:
  assumes "\<forall>j<k. retrying (es_ping C (ping_calls w + j))"
      and "\<not> retrying (es_ping C (ping_calls w + k))"
      and "eth_block_number C = Inr current_block"
      and "\<not> truthy current_block \<or> \<not> isinstance_int current_block
           \<or> int_value current_block \<le> checkpoint_read C self w k"
  shows "\<exists>w1. get_last_processed_block C self w = Some (checkpoint_read C self w k, w1)
           \<and> process_current_blocks C self w = Some (Inr (), w1)
           \<and> same_store w w1"
proof -
  obtain w1 where g: "get_last_processed_block C self w = Some (checkpoint_read C self w k, w1)"
    "same_store w w1"
    using get_last_processed_block_reads[OF assms(1,2), of self]
    unfolding checkpoint_read_def by blast
  then show ?thesis using assms(3,4)
    by (intro exI[of _ w1]) (auto simp: process_current_blocks_def)
qed

text \<open>
  The theorem at a store that answers, the stored checkpoint 2000 and the head 1050: the
  checkpoint read is the stored one.
\<close>

theorem process_current_blocks_noop_witness:
  "\<exists>w1. get_last_processed_block healthy_store monitor0 (world_at 2000) = Some (2000, w1)
        \<and> process_current_blocks healthy_store monitor0 (world_at 2000) = Some (Inr (), w1)
        \<and> same_store (world_at 2000) w1"
proof -
  have c: "checkpoint_read healthy_store monitor0 (world_at 2000) 0 = 2000"
    by (simp add: checkpoint_read_def healthy_store_def world_at_def empty_world_def)
  from process_current_blocks_noop
         [of 0 healthy_store "world_at 2000" "PyInt 1050" monitor0]
  show ?thesis unfolding c by (auto simp: healthy_store_def)
qed

text \<open>
  C10 as stated fails: with the stored checkpoint 2000 and the head 1050, when the read
  of the checkpoint raises \<^verbatim>\<open>ConnectionError\<close> the method falls back to the default start
  block 0, finds the head above it and scans: it makes 32 queries of the ledger. (The
  checkpoint is still 2000 at the end, since the later reads succeed.)
\<close>

theorem process_current_blocks_noop_counterexample:
  "last_block_doc (world_at 2000) = Some 2000
   \<and> eth_block_number first_read_fails = Inr (PyInt 1050)
   \<and> map_option (\<lambda>r. (fst r, length (get_logs_calls (snd r)), last_block_doc (snd r)))
       (process_current_blocks first_read_fails monitor0 (world_at 2000))
     = Some (Inr (), 32, Some 2000)"
  by (simp add: run_defs first_read_fails_def upt_conv_Cons)

text \<open>
  A whole cycle on the quiet ledger: from the checkpoint 0 to the head 1050, with the outer
  chunk size 1000.
\<close>

lemma quiet_cycle:
  "process_current_blocks healthy_store monitor0 (world_at 0) = Some (Inr (), after_quiet_cycle)"
  by (simp add: run_defs after_quiet_cycle_def scans_of_def scan_order_def query_def
        upt_conv_Cons)

lemma quiet_ranges:
  "list_all (\<lambda>name. ranges_for (hash_text name) after_quiet_cycle =
                [(0, 0), (0, 999), (1000, 1000), (1000, 1050)]) scan_order"
  by (simp add: after_quiet_cycle_def scans_of_def scan_order_def query_def ranges_for_def
        hash_text_def
        EVENT_METADATA_CREATED_def EVENT_METADATA_UPDATED_def EVENT_METADATA_STATE_def
        EVENT_ORDER_STARTED_def EVENT_TOKEN_URI_UPDATE_def EVENT_EXCHANGE_CREATED_def
        EVENT_EXCHANGE_RATE_CHANGED_def EVENT_DISPENSER_CREATED_def)

text \<open>
  A scan of a block range on a ledger without events, and a block range processed on
  it: every kind of event is scanned in turn, nothing is processed, and the checkpoint is
  stored.
\<close>

lemma quiet_scan_0_0:
  assumes "\<forall>f. eth_get_logs C f = Inr []" and "name \<in> set get_all_values"
  shows "get_event_logs C name 0 0 default_chunk_size w =
           Some (Inr [], w\<lparr>get_logs_calls := get_logs_calls w @ [scan_query C (name, 0, 0)]\<rparr>)"
  using assms
  by (simp add: get_event_logs_def get_logs_loop.simps query_def scan_query_def
        default_chunk_size_def)

lemma quiet_scan_0_1000:
  assumes "\<forall>f. eth_get_logs C f = Inr []" and "name \<in> set get_all_values"
  shows "get_event_logs C name 0 1000 default_chunk_size w =
           Some (Inr [], w\<lparr>get_logs_calls := get_logs_calls w @
                   [scan_query C (name, 0, 999), scan_query C (name, 1000, 1000)]\<rparr>)"
  using assms
  by (simp add: get_event_logs_def get_logs_loop.simps query_def scan_query_def
        default_chunk_size_def)

lemma quiet_scan_1000_1050:
  assumes "\<forall>f. eth_get_logs C f = Inr []" and "name \<in> set get_all_values"
  shows "get_event_logs C name 1000 1050 default_chunk_size w =
           Some (Inr [], w\<lparr>get_logs_calls := get_logs_calls w @
                   [scan_query C (name, 1000, 1050)]\<rparr>)"
  using assms
  by (simp add: get_event_logs_def get_logs_loop.simps query_def scan_query_def
        default_chunk_size_def)

lemma known_kinds:
  "EVENT_METADATA_CREATED \<in> set get_all_values" "EVENT_METADATA_UPDATED \<in> set get_all_values"
  "EVENT_METADATA_STATE \<in> set get_all_values" "EVENT_ORDER_STARTED \<in> set get_all_values"
  "EVENT_TOKEN_URI_UPDATE \<in> set get_all_values" "EVENT_EXCHANGE_CREATED \<in> set get_all_values"
  "EVENT_EXCHANGE_RATE_CHANGED \<in> set get_all_values"
  "EVENT_DISPENSER_CREATED \<in> set get_all_values"
  by (simp_all add: get_all_values_def)

lemma known_names:
  "get_value ''EVENT_METADATA_CREATED'' = Inr EVENT_METADATA_CREATED"
  "get_value ''EVENT_METADATA_UPDATED'' = Inr EVENT_METADATA_UPDATED"
  "get_value ''EVENT_METADATA_STATE'' = Inr EVENT_METADATA_STATE"
  by (simp_all add: get_value_def)

lemma quiet_range_scans:
  assumes q: "\<forall>f. eth_get_logs C f = Inr []"
      and f: "get_fre C = None" and d: "get_dispenser C = None"
  shows "process_block_range C self 0 0 w =
           store_last_processed_block C self 0
             (w\<lparr>get_logs_calls := get_logs_calls w @
                  map (scan_query C) (scans_in_order [(0, 0)])\<rparr>)"
    and "process_block_range C self 0 1000 w =
           store_last_processed_block C self 1000
             (w\<lparr>get_logs_calls := get_logs_calls w @
                  map (scan_query C) (scans_in_order [(0, 999), (1000, 1000)])\<rparr>)"
    and "process_block_range C self 1000 1050 w =
           store_last_processed_block C self 1050
             (w\<lparr>get_logs_calls := get_logs_calls w @
                  map (scan_query C) (scans_in_order [(1000, 1050)])\<rparr>)"
  using f d
  by (simp_all add: process_block_range_def handle_regular_event_processor_def
        handle_price_change_def handle_token_uri_update_def known_names
        quiet_scan_0_0[OF q] quiet_scan_0_1000[OF q] quiet_scan_1000_1050[OF q] known_kinds
        scans_in_order_def scan_order_def)

lemma py_range_example: "py_range 0 1050 1000 = [0, 1000]"
  by (simp add: py_range_def upt_conv_Cons)

text \<open>
  The cycle from the checkpoint 0 to the head 1050, with the outer chunk size 1000, for
  every store that answers and every ledger without events.
\<close>

lemma quiet_cycle_general:
  assumes up: "\<forall>n. es_ping C n = PingTrue" and ok: "\<forall>n. es_fault C n = None"
      and q: "\<forall>f. eth_get_logs C f = Inr []"
      and f: "get_fre C = None" and d: "get_dispenser C = None"
      and head: "eth_block_number C = Inr (PyInt 1050)"
      and chunk: "blockchain_chunk_size self = 1000"
      and ck: "last_block_doc w = Some 0"
  shows "\<exists>w'. process_current_blocks C self w = Some (Inr (), w')
           \<and> last_block_doc w' = Some 1050
           \<and> get_logs_calls w' = get_logs_calls w @ map (scan_query C) cycle_scans
           \<and> assets w' = assets w \<and> processed w' = processed w \<and> logged w' = logged w"
  using ok head chunk ck
  by (simp add: process_current_blocks_def get_last_processed_block_healthy[OF up ok]
        py_range_example quiet_range_scans[OF q f d] store_last_processed_block_def
        es_index_last_block_def called_def pinged_def cycle_scans_def)

lemma cycle_scans_per_kind:
  "list_all (\<lambda>name. map snd (filter (\<lambda>s. fst s = name) cycle_scans) =
                [(0, 0), (0, 999), (1000, 1000), (1000, 1050)]) scan_order"
  by (simp add: cycle_scans_def scans_in_order_def scan_order_def
        EVENT_METADATA_CREATED_def EVENT_METADATA_UPDATED_def EVENT_METADATA_STATE_def
        EVENT_ORDER_STARTED_def EVENT_TOKEN_URI_UPDATE_def EVENT_EXCHANGE_CREATED_def
        EVENT_EXCHANGE_RATE_CHANGED_def EVENT_DISPENSER_CREATED_def)

text \<open>
  C5, as amended. The scanner \<^verbatim>\<open>get_event_logs\<close>, called on the blocks 0 to 1050 with the
  chunk size 1000 for a known kind of event, queries exactly the sub-ranges \<open>[0,999]\<close> and
  \<open>[1000,1050]\<close> when these queries succeed, and returns their logs. The monitor does not
  call it on that range. For every store that answers every call and every ledger that
  holds no event (every query answers with no log, and \<^verbatim>\<open>get_fre\<close> and
  \<^verbatim>\<open>get_dispenser\<close> raise nothing), with the head 1050, the stored checkpoint 0 and the
  outer chunk size 1000, \<^verbatim>\<open>process_current_blocks\<close> processes the block ranges \<open>(0,0)\<close>,
  \<open>(0,1000)\<close> and \<open>(1000,1050)\<close>: the queries it makes are those of \<open>cycle_scans\<close>, in
  which the sub-ranges of every kind of event are \<open>[0,0]\<close>, \<open>[0,999]\<close>, \<open>[1000,1000]\<close>
  and \<open>[1000,1050]\<close>, and the checkpoint ends at 1050.
\<close>

theorem scanner_ranges_example:
  assumes "event_name \<in> set get_all_values"
      and "eth_get_logs L (query (keccak L (hash_text event_name)) (0, 999)) = Inr logs1"
      and "eth_get_logs L (query (keccak L (hash_text event_name)) (1000, 1050)) = Inr logs2"
      and "\<forall>n. es_ping C n = PingTrue" and "\<forall>n. es_fault C n = None"
      and "\<forall>f. eth_get_logs C f = Inr []"
      and "get_fre C = None" and "get_dispenser C = None"
      and "eth_block_number C = Inr (PyInt 1050)"
      and "blockchain_chunk_size self = 1000"
      and "last_block_doc w = Some 0"
  shows "get_event_logs L event_name 0 1050 1000 v =
           Some (Inr (logs1 @ logs2),
                 v\<lparr>get_logs_calls := get_logs_calls v @
                      map (query (keccak L (hash_text event_name))) [(0, 999), (1000, 1050)]\<rparr>)
         \<and> (\<exists>w'. process_current_blocks C self w = Some (Inr (), w')
                \<and> last_block_doc w' = Some 1050
                \<and> get_logs_calls w' = get_logs_calls w @ map (scan_query C) cycle_scans
                \<and> assets w' = assets w \<and> processed w' = processed w)
         \<and> list_all (\<lambda>name. map snd (filter (\<lambda>s. fst s = name) cycle_scans) =
                        [(0, 0), (0, 999), (1000, 1000), (1000, 1050)]) scan_order"
proof -
  have "get_event_logs L event_name 0 1050 1000 v =
           Some (Inr (logs1 @ logs2),
                 v\<lparr>get_logs_calls := get_logs_calls v @
                      map (query (keccak L (hash_text event_name))) [(0, 999), (1000, 1050)]\<rparr>)"
    using assms(1-3) by (simp add: get_event_logs_def get_logs_loop.simps query_def)
  moreover have "\<exists>w'. process_current_blocks C self w = Some (Inr (), w')
                \<and> last_block_doc w' = Some 1050
                \<and> get_logs_calls w' = get_logs_calls w @ map (scan_query C) cycle_scans
                \<and> assets w' = assets w \<and> processed w' = processed w"
    using quiet_cycle_general[OF assms(4-11)] by blast
  ultimately show ?thesis using cycle_scans_per_kind by blast
qed

text \<open>The theorem at the quiet ledger and the kind \<^verbatim>\<open>MetadataCreated\<close>.\<close>

theorem scanner_ranges_example_witness:
  "get_event_logs healthy_store EVENT_METADATA_CREATED 0 1050 1000 empty_world =
     Some (Inr [],
           empty_world\<lparr>get_logs_calls :=
             map (query (hash_text EVENT_METADATA_CREATED)) [(0, 999), (1000, 1050)]\<rparr>)
   \<and> (\<exists>w'. process_current_blocks healthy_store monitor0 (world_at 0) = Some (Inr (), w')
          \<and> last_block_doc w' = Some 1050
          \<and> get_logs_calls w' = map (scan_query healthy_store) cycle_scans
          \<and> assets w' = [] \<and> processed w' = [])
   \<and> list_all (\<lambda>name. map snd (filter (\<lambda>s. fst s = name) cycle_scans) =
                  [(0, 0), (0, 999), (1000, 1000), (1000, 1050)]) scan_order"
  using scanner_ranges_example
    [of EVENT_METADATA_CREATED healthy_store "[]" "[]" healthy_store monitor0 "world_at 0"
        empty_world]
  by (simp add: healthy_store_def get_all_values_def empty_world_def world_at_def
        monitor0_def)

text \<open>
  C5 as stated fails: with the head 1050, the checkpoint 0 and the chunk size 1000, the
  sub-ranges queried for \<^verbatim>\<open>MetadataCreated\<close> in the cycle are four, not the two of the
  claim.
\<close>

theorem scanner_ranges_counterexample:
  "map_option (\<lambda>r. ranges_for (hash_text EVENT_METADATA_CREATED) (snd r))
     (process_current_blocks healthy_store monitor0 (world_at 0))
   = Some [(0, 0), (0, 999), (1000, 1000), (1000, 1050)]
   \<and> [(0, 0), (0, 999), (1000, 1000), (1000, 1050)] \<noteq> [(0, 999), (1000, 1050 :: int)]"
  using quiet_cycle quiet_ranges by (simp add: scan_order_def)

section \<open>The event dispatcher: properties\<close>

text \<open>
  What \<^verbatim>\<open>handle_regular_event_processor\<close> isolates. When every event of the batch
  decodes, the loop over the batch raises nothing, whatever the processors do: every event
  is either processed or logged with its exception, and the loop touches neither the
  checkpoint nor the ledger.
\<close>

lemma regular_events_loop_isolation:
  assumes "list_all (decodes C kind) events"
  shows "\<exists>w'. regular_events_loop C self event_name kind events w = (Inr (), w')
           \<and> last_block_doc w' = last_block_doc w
           \<and> get_logs_calls w' = get_logs_calls w
           \<and> length (processed w') + length (logged w') =
               length (processed w) + length (logged w) + length events"
  using assms
proof (induction events arbitrary: w)
  case Nil
  then show ?case by simp
next
  case (Cons ev events)
  from Cons.prems obtain a r x xs where d:
    "toChecksumAddress C (JString (address ev)) = Inr a"
    "get_transaction_receipt C (transactionHash ev) = Inr r"
    "processReceipt C kind r = x # xs"
    by (auto simp: decodes_def neq_Nil_conv)
  obtain res docs where p:
    "regular_processor C event_name x (tx_from r) (processReceipt C ''MetadataValidated'' r)
       (chain_id self) (assets w) = (res, docs)"
    by (cases "regular_processor C event_name x (tx_from r)
                 (processReceipt C ''MetadataValidated'' r) (chain_id self) (assets w)")
  define w1 where "w1 = (case res of
       Inr u \<Rightarrow> w\<lparr>assets := docs, processed := processed w @ [(kind, ev)]\<rparr>
     | Inl e \<Rightarrow> log_error [Error_processing_event kind e ev] (w\<lparr>assets := docs\<rparr>))"
  have step: "regular_events_loop C self event_name kind (ev # events) w =
              regular_events_loop C self event_name kind events w1"
    using d p by (simp add: w1_def split: sum.splits)
  have f: "last_block_doc w1 = last_block_doc w" "get_logs_calls w1 = get_logs_calls w"
    "length (processed w1) + length (logged w1) = length (processed w) + length (logged w) + 1"
    by (auto simp: w1_def log_error_def split: sum.splits)
  from Cons.prems have "list_all (decodes C kind) events" by simp
  from Cons.IH[OF this, of w1] obtain w' where
    "regular_events_loop C self event_name kind events w1 = (Inr (), w')"
    "last_block_doc w' = last_block_doc w1" "get_logs_calls w' = get_logs_calls w1"
    "length (processed w') + length (logged w') =
       length (processed w1) + length (logged w1) + length events"
    by blast
  then show ?case using step f by (intro exI[of _ w']) simp
qed

text \<open>
  A processor that raises on the second of five events: the other four are processed,
  the failure is logged, and the checkpoint advances to the end of the range.
\<close>

lemma processor_exception_is_isolated:
  "map_option (\<lambda>r. (fst r, map snd (processed (snd r)), length (logged (snd r)),
                    last_block_doc (snd r)))
     (process_block_range second_processor_raises monitor0 1 5 (world_at 0))
   = Some (Inr (),
       [event_in_block 1 ''tx1'', event_in_block 3 ''tx3'', event_in_block 4 ''tx4'',
        event_in_block 5 ''tx5''], 1, Some 5)"
  by (simp add: run_defs second_event_undecodable_def second_processor_raises_def
        five_events_def event_in_block_def)

text \<open>
  C3, at the spec's example. The receipt of the second of five \<^verbatim>\<open>MetadataCreated\<close> events
  holds no event that decodes: \<^verbatim>\<open>processReceipt(receipt, errors=DISCARD)[0]\<close> raises
  \<^verbatim>\<open>IndexError\<close> outside the \<^verbatim>\<open>try\<close>. \<^verbatim>\<open>handle_regular_event_processor\<close> raises it after
  the first event alone was processed, \<^verbatim>\<open>process_block_range\<close> raises it in turn before it
  stores the checkpoint, which stays at 0, and nothing is logged for the event.
\<close>

theorem decode_failure_aborts_the_batch:
  "map_option (\<lambda>r. (fst r, map snd (processed (snd r)), logged (snd r)))
     (handle_regular_event_processor second_event_undecodable monitor0
        ''EVENT_METADATA_CREATED'' 1 5 (world_at 0))
   = Some (Inl IndexError, [event_in_block 1 ''tx1''], [])
   \<and> map_option (\<lambda>r. (fst r, map snd (processed (snd r)), last_block_doc (snd r)))
       (process_block_range second_event_undecodable monitor0 1 5 (world_at 0))
     = Some (Inl IndexError, [event_in_block 1 ''tx1''], Some 0)"
  by (simp add: run_defs second_event_undecodable_def five_events_def event_in_block_def)

section \<open>Clean start: properties\<close>

text \<open>
  C2, at the spec's example. With the start block 42, three documents of the chain and
  the checkpoint 1000, \<^verbatim>\<open>reset_chain\<close> removes the three documents (the document of the
  other chain stays) and returns; the checkpoint is still 1000:
  \<^verbatim>\<open>store_last_processed_block(42)\<close> reads 1000 and writes nothing.
\<close>

theorem reset_chain_keeps_checkpoint:
  "map_option (\<lambda>r. (fst r, map asset_id (assets (snd r)), last_block_doc (snd r)))
     (reset_chain healthy_store monitor0 three_documents)
   = Some (Inr (), [''did:op:3''], Some 1000)"
  by (simp add: run_defs reset_chain_def get_assets_in_chain_def three_documents_def)

section \<open>The proof checker: properties\<close>

text \<open>
  The two comprehensions return their addresses exactly when every element yields one,
  and then the addresses are those of the elements.
\<close>

lemma proof_addresses_Inr:
  "(\<exists>ps. proof_addresses checksum proofs = Inr ps) \<longleftrightarrow>
   list_all (\<lambda>p. \<exists>v a. args_validator p = Inr v \<and> checksum v = Inr a) proofs"
  by (induction proofs) (auto split: sum.splits)

lemma proof_addresses_set:
  "proof_addresses checksum proofs = Inr ps \<Longrightarrow>
   set ps = {a. \<exists>p\<in>set proofs. \<exists>v. args_validator p = Inr v \<and> checksum v = Inr a}"
proof (induction proofs arbitrary: ps)
  case Nil
  then show ?case by simp
next
  case (Cons p proofs)
  then show ?case by (fastforce split: sum.splits)
qed

lemma allowed_addresses_Inr:
  "(\<exists>as. allowed_addresses checksum vs = Inr as) \<longleftrightarrow>
   list_all (\<lambda>v. \<exists>a. checksum v = Inr a) vs"
  by (induction vs) (auto split: sum.splits)

lemma allowed_addresses_set:
  "allowed_addresses checksum vs = Inr as \<Longrightarrow>
   set as = {a. \<exists>v\<in>set vs. checksum v = Inr a}"
proof (induction vs arbitrary: as)
  case Nil
  then show ?case by simp
next
  case (Cons v vs)
  then show ?case by (fastforce split: sum.splits)
qed

text \<open>
  C6. For every list of proofs, the empty one included: \<^verbatim>\<open>check_metadata_proofs\<close> returns
  true when \<^verbatim>\<open>ALLOWED_VALIDATORS\<close> is unset or the empty string, and when it decodes to an
  empty collection. When it decodes to a collection \<open>allowed\<close> that is not empty, and the
  validator address of every proof and every entry of \<open>allowed\<close> normalise, it returns
  true if and only if the normalised address of some proof's validator is the normalised
  address of some entry of \<open>allowed\<close>.
\<close>

theorem check_metadata_proofs_decision:
  "(ALLOWED_VALIDATORS = None \<or> ALLOWED_VALIDATORS = Some [] \<longrightarrow>
      check_metadata_proofs checksum json_loads ALLOWED_VALIDATORS proofs = (True, []))
   \<and> (ALLOWED_VALIDATORS = Some text \<and> json_loads text = Inr v \<and> py_set v = Inr [] \<longrightarrow>
      check_metadata_proofs checksum json_loads ALLOWED_VALIDATORS proofs = (True, []))
   \<and> (ALLOWED_VALIDATORS = Some text \<and> text \<noteq> [] \<and> json_loads text = Inr v
        \<and> py_set v = Inr allowed \<and> allowed \<noteq> []
        \<and> list_all (\<lambda>p. \<exists>v a. args_validator p = Inr v \<and> checksum v = Inr a) proofs
        \<and> list_all (\<lambda>v. \<exists>a. checksum v = Inr a) allowed \<longrightarrow>
      fst (check_metadata_proofs checksum json_loads ALLOWED_VALIDATORS proofs) =
        (\<exists>p\<in>set proofs. \<exists>v\<in>set allowed. \<exists>vp a.
            args_validator p = Inr vp \<and> checksum vp = Inr a \<and> checksum v = Inr a))"
proof (intro conjI impI)
  assume "ALLOWED_VALIDATORS = None \<or> ALLOWED_VALIDATORS = Some []"
  then show "check_metadata_proofs checksum json_loads ALLOWED_VALIDATORS proofs = (True, [])"
    by (auto simp: check_metadata_proofs_def)
next
  assume "ALLOWED_VALIDATORS = Some text \<and> json_loads text = Inr v \<and> py_set v = Inr []"
  then show "check_metadata_proofs checksum json_loads ALLOWED_VALIDATORS proofs = (True, [])"
    by (auto simp: check_metadata_proofs_def)
next
  assume a: "ALLOWED_VALIDATORS = Some text \<and> text \<noteq> [] \<and> json_loads text = Inr v
        \<and> py_set v = Inr allowed \<and> allowed \<noteq> []
        \<and> list_all (\<lambda>p. \<exists>v a. args_validator p = Inr v \<and> checksum v = Inr a) proofs
        \<and> list_all (\<lambda>v. \<exists>a. checksum v = Inr a) allowed"
  then obtain ps as where ps: "proof_addresses checksum proofs = Inr ps"
    and as: "allowed_addresses checksum allowed = Inr as"
    using proof_addresses_Inr[of checksum proofs] allowed_addresses_Inr[of checksum allowed]
    by auto
  have "fst (check_metadata_proofs checksum json_loads ALLOWED_VALIDATORS proofs) =
          (\<exists>a\<in>set ps. a \<in> set as)"
    using a ps as by (simp add: check_metadata_proofs_def list_ex_iff)
  also have "\<dots> = (\<exists>p\<in>set proofs. \<exists>v\<in>set allowed. \<exists>vp a.
            args_validator p = Inr vp \<and> checksum vp = Inr a \<and> checksum v = Inr a)"
    unfolding proof_addresses_set[OF ps] allowed_addresses_set[OF as] by blast
  finally show "fst (check_metadata_proofs checksum json_loads ALLOWED_VALIDATORS proofs) =
        (\<exists>p\<in>set proofs. \<exists>v\<in>set allowed. \<exists>vp a.
            args_validator p = Inr vp \<and> checksum vp = Inr a \<and> checksum v = Inr a)" .
qed

text \<open>
  The theorem with the allow-list of \<^verbatim>\<open>0xA1\<close> and \<^verbatim>\<open>0xB2\<close>: no allow-list and no proof,
  a proof of \<^verbatim>\<open>0xB2\<close> among the proofs, no proof of an allowed validator, and no proof.
\<close>

theorem check_metadata_proofs_decision_witness:
  "check_metadata_proofs checksum_0x loads_stub None [] = (True, [])
   \<and> fst (check_metadata_proofs checksum_0x loads_stub (Some ''[\"0xA1\", \"0xB2\"]'')
            [proof_by ''0xC3'', proof_by ''0xB2''])
   \<and> \<not> fst (check_metadata_proofs checksum_0x loads_stub (Some ''[\"0xA1\", \"0xB2\"]'')
            [proof_by ''0xC3''])
   \<and> \<not> fst (check_metadata_proofs checksum_0x loads_stub (Some ''[\"0xA1\", \"0xB2\"]'') [])"
  using check_metadata_proofs_decision [of None checksum_0x loads_stub "[]"]
        check_metadata_proofs_decision
          [of "Some ''[\"0xA1\", \"0xB2\"]''" checksum_0x loads_stub
              "[proof_by ''0xC3'', proof_by ''0xB2'']" "''[\"0xA1\", \"0xB2\"]''"
              "JArray [JString ''0xA1'', JString ''0xB2'']" "[JString ''0xA1'', JString ''0xB2'']"]
        check_metadata_proofs_decision
          [of "Some ''[\"0xA1\", \"0xB2\"]''" checksum_0x loads_stub
              "[proof_by ''0xC3'']" "''[\"0xA1\", \"0xB2\"]''"
              "JArray [JString ''0xA1'', JString ''0xB2'']" "[JString ''0xA1'', JString ''0xB2'']"]
        check_metadata_proofs_decision
          [of "Some ''[\"0xA1\", \"0xB2\"]''" checksum_0x loads_stub
              "[]" "''[\"0xA1\", \"0xB2\"]''"
              "JArray [JString ''0xA1'', JString ''0xB2'']" "[JString ''0xA1'', JString ''0xB2'']"]
  by (simp add: loads_stub_def checksum_0x_def proof_by_def args_validator_def)

text \<open>
  C7. When \<^verbatim>\<open>ALLOWED_VALIDATORS\<close> is set and not empty: if \<^verbatim>\<open>json.loads\<close> raises, or the
  decoded value cannot be made a set, \<^verbatim>\<open>check_metadata_proofs\<close> returns false and logs the
  error; if the allow-list is not empty and the validator address of some proof cannot be
  read or normalised (or some entry of the allow-list cannot be normalised), it returns
  false.
\<close>

theorem check_metadata_proofs_fails_closed:
  assumes "ALLOWED_VALIDATORS = Some text" and "text \<noteq> []"
  shows "(json_loads text = Inl e \<longrightarrow>
            check_metadata_proofs checksum json_loads ALLOWED_VALIDATORS proofs =
              (False, [Reading_allowed_validators_failed e]))
       \<and> (json_loads text = Inr v \<and> py_set v = Inl e \<longrightarrow>
            check_metadata_proofs checksum json_loads ALLOWED_VALIDATORS proofs =
              (False, [Reading_allowed_validators_failed e]))
       \<and> (json_loads text = Inr v \<and> py_set v = Inr allowed \<and> allowed \<noteq> []
            \<and> (\<not> list_all (\<lambda>p. \<exists>v a. args_validator p = Inr v \<and> checksum v = Inr a) proofs
               \<or> \<not> list_all (\<lambda>v. \<exists>a. checksum v = Inr a) allowed) \<longrightarrow>
            check_metadata_proofs checksum json_loads ALLOWED_VALIDATORS proofs =
              (False, [Exception_retrieving_proof_addresses]))"
proof (intro conjI impI)
  assume "json_loads text = Inl e"
  then show "check_metadata_proofs checksum json_loads ALLOWED_VALIDATORS proofs =
              (False, [Reading_allowed_validators_failed e])"
    using assms by (simp add: check_metadata_proofs_def)
next
  assume "json_loads text = Inr v \<and> py_set v = Inl e"
  then show "check_metadata_proofs checksum json_loads ALLOWED_VALIDATORS proofs =
              (False, [Reading_allowed_validators_failed e])"
    using assms by (simp add: check_metadata_proofs_def)
next
  assume a: "json_loads text = Inr v \<and> py_set v = Inr allowed \<and> allowed \<noteq> []
            \<and> (\<not> list_all (\<lambda>p. \<exists>v a. args_validator p = Inr v \<and> checksum v = Inr a) proofs
               \<or> \<not> list_all (\<lambda>v. \<exists>a. checksum v = Inr a) allowed)"
  then have "\<not> (\<exists>ps. proof_addresses checksum proofs = Inr ps)
             \<or> \<not> (\<exists>as. allowed_addresses checksum allowed = Inr as)"
    using proof_addresses_Inr[of checksum proofs] allowed_addresses_Inr[of checksum allowed]
    by simp
  then show "check_metadata_proofs checksum json_loads ALLOWED_VALIDATORS proofs =
              (False, [Exception_retrieving_proof_addresses])"
    using assms a
    by (cases "proof_addresses checksum proofs"; cases "allowed_addresses checksum allowed")
       (auto simp: check_metadata_proofs_def)
qed

text \<open>
  The theorem at a text that is not JSON, at the JSON number 5, and at a proof without
  a validator.
\<close>

theorem check_metadata_proofs_fails_closed_witness:
  "check_metadata_proofs checksum_0x loads_stub (Some ''0xA1, 0xB2'') [proof_by ''0xA1'']
     = (False, [Reading_allowed_validators_failed JSONDecodeError])
   \<and> check_metadata_proofs checksum_0x loads_stub (Some ''5'') [proof_by ''0xA1'']
     = (False, [Reading_allowed_validators_failed TypeError])
   \<and> check_metadata_proofs checksum_0x loads_stub (Some ''[\"0xA1\", \"0xB2\"]'')
       [proof_by ''0xA1'', \<lparr>event = ''MetadataValidated'', args = []\<rparr>]
     = (False, [Exception_retrieving_proof_addresses])"
  using check_metadata_proofs_fails_closed
          [of "Some ''0xA1, 0xB2''" "''0xA1, 0xB2''" loads_stub JSONDecodeError checksum_0x
              "[proof_by ''0xA1'']"]
        check_metadata_proofs_fails_closed
          [of "Some ''5''" "''5''" loads_stub TypeError checksum_0x
              "[proof_by ''0xA1'']" "JNumber 5"]
        check_metadata_proofs_fails_closed
          [of "Some ''[\"0xA1\", \"0xB2\"]''" "''[\"0xA1\", \"0xB2\"]''" loads_stub _ checksum_0x
              "[proof_by ''0xA1'', \<lparr>event = ''MetadataValidated'', args = []\<rparr>]"
              "JArray [JString ''0xA1'', JString ''0xB2'']" "[JString ''0xA1'', JString ''0xB2'']"]
  by (simp add: loads_stub_def checksum_0x_def proof_by_def args_validator_def)

section \<open>Cooperative stop: properties\<close>

text \<open>
  No method of the cycle reads the flag \<^verbatim>\<open>_monitor_is_on\<close>: what each does is the same
  whatever the flag holds.
\<close>

lemma get_last_processed_block_flag:
  "get_last_processed_block C (self\<lparr>monitor_is_on := b\<rparr>) w = get_last_processed_block C self w"
  by (simp add: get_last_processed_block_def last_block_handler_def
        Let_def split: option.split sum.split prod.split)

lemma store_last_processed_block_flag:
  "store_last_processed_block C (self\<lparr>monitor_is_on := b\<rparr>) block w =
   store_last_processed_block C self block w"
  by (simp add: store_last_processed_block_def get_last_processed_block_flag)

lemma regular_events_loop_flag:
  "regular_events_loop C (self\<lparr>monitor_is_on := b\<rparr>) event_name kind events w =
   regular_events_loop C self event_name kind events w"
  by (induction events arbitrary: w) (simp_all split: sum.split list.split prod.split)

lemma handle_regular_event_processor_flag:
  "handle_regular_event_processor C (self\<lparr>monitor_is_on := b\<rparr>) event_name from_block to_block w =
   handle_regular_event_processor C self event_name from_block to_block w"
  by (simp add: handle_regular_event_processor_def regular_events_loop_flag
        cong: option.case_cong sum.case_cong prod.case_cong)

lemma price_events_loop_flag:
  "price_events_loop C (self\<lparr>monitor_is_on := b\<rparr>) event_name to_block events w =
   price_events_loop C self event_name to_block events w"
  by (induction events arbitrary: w)
     (simp_all add: process_order_started_def split: sum.split prod.split)

lemma price_kinds_loop_flag:
  "price_kinds_loop C (self\<lparr>monitor_is_on := b\<rparr>) names from_block to_block w =
   price_kinds_loop C self names from_block to_block w"
  by (induction names arbitrary: w)
     (simp_all add: price_events_loop_flag cong: option.case_cong sum.case_cong prod.case_cong)

lemma handle_price_change_flag:
  "handle_price_change C (self\<lparr>monitor_is_on := b\<rparr>) from_block to_block w =
   handle_price_change C self from_block to_block w"
  by (simp add: handle_price_change_def price_kinds_loop_flag
        del: price_kinds_loop.simps cong: option.case_cong sum.case_cong prod.case_cong)

lemma token_uri_events_loop_flag:
  "token_uri_events_loop C (self\<lparr>monitor_is_on := b\<rparr>) events w =
   token_uri_events_loop C self events w"
  by (induction events arbitrary: w) (simp_all split: sum.split prod.split)

lemma handle_token_uri_update_flag:
  "handle_token_uri_update C (self\<lparr>monitor_is_on := b\<rparr>) from_block to_block w =
   handle_token_uri_update C self from_block to_block w"
  by (simp add: handle_token_uri_update_def token_uri_events_loop_flag
        cong: option.case_cong sum.case_cong prod.case_cong)

lemma regular_kinds_loop_flag:
  "regular_kinds_loop C (self\<lparr>monitor_is_on := b\<rparr>) names from_block to_block w =
   regular_kinds_loop C self names from_block to_block w"
  by (induction names arbitrary: w)
     (simp_all add: handle_regular_event_processor_flag
        cong: option.case_cong sum.case_cong prod.case_cong)

lemma process_block_range_flag:
  "process_block_range C (self\<lparr>monitor_is_on := b\<rparr>) from_block to_block w =
   process_block_range C self from_block to_block w"
  by (simp add: process_block_range_def regular_kinds_loop_flag handle_price_change_flag
        handle_token_uri_update_flag store_last_processed_block_flag
        del: regular_kinds_loop.simps cong: option.case_cong sum.case_cong prod.case_cong)

lemma chunks_loop_flag:
  "chunks_loop C (self\<lparr>monitor_is_on := b\<rparr>) es start_block_chunk end_block_chunk w =
   chunks_loop C self es start_block_chunk end_block_chunk w"
  by (induction es arbitrary: start_block_chunk end_block_chunk w)
     (simp_all add: process_block_range_flag
        cong: option.case_cong sum.case_cong prod.case_cong)

lemma process_current_blocks_flag:
  "process_current_blocks C (self\<lparr>monitor_is_on := b\<rparr>) w = process_current_blocks C self w"
  by (simp add: process_current_blocks_def get_last_processed_block_flag chunks_loop_flag
        process_block_range_flag
        cong: option.case_cong sum.case_cong prod.case_cong if_cong)

text \<open>The loop of \<^verbatim>\<open>run_monitor\<close> has no exit: it returns no world.\<close>

lemma run_monitor_no_result:
  assumes "run_monitor C self flag n w = Some y"
  shows "False"
  using assms
proof (induction rule: run_monitor.raw_induct[rotated 1, consumes 1])
  case (1 run C self flag n w y)
  then show ?case by (auto split: option.splits)
qed

lemma run_monitor_never_returns: "run_monitor C self flag n w = None"
  using run_monitor_no_result by (cases "run_monitor C self flag n w") auto

lemma run_iterations_idle:
  "\<forall>j<k. \<not> flag (n + j) \<Longrightarrow> run_iterations C self flag k n w = Some w"
proof (induction k arbitrary: n)
  case 0
  then show ?case by simp
next
  case (Suc k)
  have "\<not> flag n" using Suc.prems by (metis add.right_neutral zero_less_Suc)
  moreover have "\<forall>j<k. \<not> flag (Suc n + j)" using Suc.prems
    by (metis Suc_less_eq add_Suc_shift)
  ultimately show ?case using Suc.IH[of "Suc n"] by (simp add: do_run_monitor_def)
qed

text \<open>
  C9, as amended. \<^verbatim>\<open>stop_monitor\<close> only clears the flag. The flag is read once in an
  iteration, at its start: an iteration that finds it cleared returns at once and leaves
  the world as it is (nothing is scanned, dispatched, written or logged), and the cycle
  of an iteration that found it set does not read it, so that clearing the flag during
  the cycle changes nothing of what the cycle does. Over any \<open>k\<close> iterations that all find
  the flag cleared the world is unchanged. The loop itself has no exit: \<^verbatim>\<open>run_monitor\<close>
  never returns.
\<close>

theorem stop_is_cooperative:
  "stop_monitor self = self\<lparr>monitor_is_on := False\<rparr>
   \<and> do_run_monitor C (stop_monitor self) w = Some w
   \<and> process_current_blocks C (self\<lparr>monitor_is_on := b\<rparr>) w = process_current_blocks C self w
   \<and> ((\<forall>j<k. \<not> flag (n + j)) \<longrightarrow> run_iterations C self flag k n w = Some w)
   \<and> run_monitor C self flag n w = None"
  using run_iterations_idle[of k flag n C self w]
  by (simp add: stop_monitor_def do_run_monitor_def process_current_blocks_flag
        run_monitor_never_returns)

text \<open>The theorem at three iterations that find the flag cleared.\<close>

theorem stop_is_cooperative_witness:
  "stop_monitor monitor0 = monitor0\<lparr>monitor_is_on := False\<rparr>
   \<and> do_run_monitor healthy_store (stop_monitor monitor0) (world_at 0) = Some (world_at 0)
   \<and> process_current_blocks healthy_store (monitor0\<lparr>monitor_is_on := False\<rparr>) (world_at 0)
       = process_current_blocks healthy_store monitor0 (world_at 0)
   \<and> run_iterations healthy_store monitor0 always_off 3 0 (world_at 0) = Some (world_at 0)
   \<and> run_monitor healthy_store monitor0 always_off 0 (world_at 0) = None"
  using stop_is_cooperative [of monitor0 healthy_store "world_at 0" False 3 always_off 0]
  by (simp add: always_off_def stop_monitor_def)

text \<open>
  C9 as stated fails. With the flag cleared at every iteration, each iteration returns
  at once, but the loop does not exit: \<^verbatim>\<open>run_monitor\<close> returns nothing. And the loop that
  found the flag cleared scans again when the flag is set again: with the flag cleared
  at the first iteration and set at the second, the second iteration runs the whole
  cycle, up to the checkpoint 1050.
\<close>

theorem stop_does_not_exit_counterexample:
  "do_run_monitor healthy_store (stop_monitor monitor0) (world_at 0) = Some (world_at 0)
   \<and> run_monitor healthy_store monitor0 always_off 0 (world_at 0) = None
   \<and> run_iterations healthy_store monitor0 off_then_on 2 0 (world_at 0) = Some after_quiet_cycle
   \<and> last_block_doc after_quiet_cycle = Some 1050"
  using quiet_cycle
  by (simp add: run_monitor_never_returns stop_monitor_def do_run_monitor_def
        numeral_2_eq_2 off_then_on_def monitor0_def after_quiet_cycle_def)

end
